theory Spec2Isabelle
  imports Complex_Main "HOL-Library.Word"
begin

section \<open>Values shared by the whole script\<close>

text \<open>
  The exceptions \<^verbatim>\<open>predict.py\<close> can end with. \<open>External\<close> stands for a failure
  inside a collaborator (the diffusion pipeline, torch): the script catches none of them.
\<close>

datatype error =
    AssertionError
  | ValueError
  | UnboundLocalError string
  | NameError string
  | AttributeError
  | KeyboardInterrupt
  | SystemExit int
  | External string

section \<open>Python strings\<close>

text \<open>
  A Python \<^verbatim>\<open>str\<close> is a sequence of code points. A \<^typ>\<open>char\<close> here is a code
  point below 256, so the model covers the strings over that range. There,
  \<^verbatim>\<open>str.isspace\<close> holds of the control characters 9 to 13 and 28 to 31, of the blank,
  of U+0085 and of U+00A0; \<^verbatim>\<open>str.isdigit\<close> holds of \<^verbatim>\<open>0\<close> to \<^verbatim>\<open>9\<close> and of
  the superscript digits U+00B2, U+00B3, U+00B9; \<^verbatim>\<open>int\<close> reads only \<^verbatim>\<open>0\<close> to
  \<^verbatim>\<open>9\<close>.
\<close>

definition code_point :: "char \<Rightarrow> nat" where
  "code_point c = of_char c"

definition isspace_char :: "char \<Rightarrow> bool" where
  "isspace_char c =
     (let n = code_point c
      in (9 \<le> n \<and> n \<le> 13) \<or> (28 \<le> n \<and> n \<le> 32) \<or> n = 133 \<or> n = 160)"

definition isdigit_char :: "char \<Rightarrow> bool" where
  "isdigit_char c =
     (let n = code_point c
      in (48 \<le> n \<and> n \<le> 57) \<or> n = 178 \<or> n = 179 \<or> n = 185)"

definition isdecimal_char :: "char \<Rightarrow> bool" where
  "isdecimal_char c = (let n = code_point c in 48 \<le> n \<and> n \<le> 57)"

text \<open>\<^verbatim>\<open>s.split(sep)\<close> for a one-character separator: no entry is dropped.\<close>

fun split_on :: "char \<Rightarrow> string \<Rightarrow> string list" where
  "split_on sep [] = [[]]"
| "split_on sep (c # cs) =
     (if c = sep then [] # split_on sep cs
      else (case split_on sep cs of
              [] \<Rightarrow> [[c]]
            | w # ws \<Rightarrow> (c # w) # ws))"

text \<open>\<^verbatim>\<open>s.strip()\<close>: white space is removed at both ends.\<close>

definition strip :: "string \<Rightarrow> string" where
  "strip s = rev (dropWhile isspace_char (rev (dropWhile isspace_char s)))"

text \<open>\<^verbatim>\<open>s.isdigit()\<close>: at least one character, and every character a digit.\<close>

definition isdigit :: "string \<Rightarrow> bool" where
  "isdigit s = (s \<noteq> [] \<and> list_all isdigit_char s)"

text \<open>
  \<^verbatim>\<open>int(s)\<close>, for the strings line 93 can pass it: \<open>s\<close> has passed \<open>isdigit\<close>, so it
  has no sign, no underscore and no blank. A superscript digit is no decimal digit:
  \<^verbatim>\<open>int\<close> raises ValueError on it. Python's integers are unbounded; the limit some
  interpreter versions put on the number of digits \<^verbatim>\<open>int\<close> reads is a setting of
  theirs, and is left out.
\<close>

definition digit_value :: "char \<Rightarrow> int" where
  "digit_value c = int (code_point c) - 48"

definition py_int :: "string \<Rightarrow> error + int" where
  "py_int s =
     (if s \<noteq> [] \<and> list_all isdecimal_char s
      then Inr (foldl (\<lambda>acc c. 10 * acc + digit_value c) 0 s)
      else Inl ValueError)"

text \<open>\<^verbatim>\<open>str(n)\<close> of an integer, and \<^verbatim>\<open>"%06d" % n\<close> of a frame index.\<close>

definition digit_char :: "nat \<Rightarrow> char" where
  "digit_char d = char_of (48 + d)"

fun str_nat :: "nat \<Rightarrow> string" where
  "str_nat n = (if n < 10 then [digit_char n] else str_nat (n div 10) @ [digit_char (n mod 10)])"

declare str_nat.simps [simp del]

definition str_int :: "int \<Rightarrow> string" where
  "str_int i = (if i < 0 then CHR ''-'' # str_nat (nat (- i)) else str_nat (nat i))"

definition fmt_06d :: "nat \<Rightarrow> string" where
  "fmt_06d n = (let ds = str_nat n in replicate (6 - length ds) CHR ''0'' @ ds)"

section \<open>Entropy\<close>

text \<open>
  \<^verbatim>\<open>os.urandom\<close> reads the operating system's entropy: a tape of bytes the run
  consumes from position 0. \<^verbatim>\<open>int.from_bytes(os.urandom(2), "big")\<close> reads two of
  them, the first one the high byte.
\<close>

type_synonym tape = "nat \<Rightarrow> 8 word"

definition urandom :: "tape \<Rightarrow> nat \<Rightarrow> nat \<Rightarrow> 8 word list" where
  "urandom tp pos k = map tp [pos ..< pos + k]"

definition int_from_bytes_big :: "8 word list \<Rightarrow> int" where
  "int_from_bytes_big bs = foldl (\<lambda>acc b. acc * 256 + uint b) 0 bs"

text \<open>
  \<^verbatim>\<open>[int.from_bytes(os.urandom(2), "big") for s in range(n)]\<close>: the k-th seed reads
  the bytes at 2k and 2k+1.
\<close>

definition random_seeds :: "tape \<Rightarrow> nat \<Rightarrow> int list" where
  "random_seeds tp n = map (\<lambda>k. int_from_bytes_big (urandom tp (2 * k) 2)) [0 ..< n]"

section \<open>Arrays, tensors and the numeric kernel\<close>

text \<open>
  Floating-point numbers are idealised as reals: rounding, overflow and NaN are outside
  the model, and so is every claim about numeric tolerance. An array is its flattened
  list of entries; its shape is its length. NumPy divides a zero vector by its zero norm
  into NaN where HOL's division gives 0: no theorem below rests on that case.
\<close>

datatype device = Cpu | Cuda

datatype vec = Ndarray "real list" | Tensor device "real list"

definition DOT_THRESHOLD :: real where
  "DOT_THRESHOLD = 9995 / 10000"

text \<open>\<^verbatim>\<open>np.linalg.norm(v)\<close>: the 2-norm of the flattened array.\<close>

definition linalg_norm :: "real list \<Rightarrow> real" where
  "linalg_norm v = sqrt (sum_list (map (\<lambda>x. x * x) v))"

text \<open>Line 210: \<^verbatim>\<open>np.sum(v0 * v1 / (np.linalg.norm(v0) * np.linalg.norm(v1)))\<close>.\<close>

definition cosine :: "real list \<Rightarrow> real list \<Rightarrow> real" where
  "cosine v0 v1 =
     sum_list (map2 (\<lambda>x y. x * y / (linalg_norm v0 * linalg_norm v1)) v0 v1)"

text \<open>Line 212: \<^verbatim>\<open>(1 - t) * v0 + t * v1\<close>.\<close>

definition lerp :: "real \<Rightarrow> real list \<Rightarrow> real list \<Rightarrow> real list" where
  "lerp t v0 v1 = map2 (\<lambda>x y. (1 - t) * x + t * y) v0 v1"

text \<open>Lines 214 to 220.\<close>

definition spherical :: "real \<Rightarrow> real \<Rightarrow> real list \<Rightarrow> real list \<Rightarrow> real list" where
  "spherical t dot v0 v1 =
     (let theta_0 = arccos dot;
          sin_theta_0 = sin theta_0;
          theta_t = theta_0 * t;
          sin_theta_t = sin theta_t;
          s0 = sin (theta_0 - theta_t) / sin_theta_0;
          s1 = sin_theta_t / sin_theta_0
      in map2 (\<lambda>x y. s0 * x + s1 * y) v0 v1)"

text \<open>Lines 210 to 220: the array \<^verbatim>\<open>v2\<close>.\<close>

definition interpolate :: "real \<Rightarrow> real list \<Rightarrow> real list \<Rightarrow> real \<Rightarrow> real list" where
  "interpolate t v0 v1 thr =
     (let dot = cosine v0 v1
      in if \<bar>dot\<bar> > thr then lerp t v0 v1 else spherical t dot v0 v1)"

text \<open>
  \<^verbatim>\<open>slerp(t, v0, v1, DOT_THRESHOLD)\<close>, lines 201 to 225. The locals
  \<^verbatim>\<open>inputs_are_torch\<close> and \<^verbatim>\<open>input_device\<close> are bound only in the branch of line
  204: an unbound local is \<open>None\<close>, and reading it raises UnboundLocalError. A tensor
  \<^verbatim>\<open>v0\<close> with an array \<^verbatim>\<open>v1\<close> fails at \<^verbatim>\<open>v1.cpu()\<close>; what NumPy and torch make
  of an array times a tensor is theirs, and the model stops there with \<open>External\<close>.
  The contract asks for operands of one shape; NumPy refuses other shapes unless it can
  broadcast them, which the model does not follow: it reports the shape error.
\<close>

definition slerp_with :: "real \<Rightarrow> vec \<Rightarrow> vec \<Rightarrow> real \<Rightarrow> error + vec" where
  "slerp_with t v0 v1 thr =
     (case (case v0 of
              Ndarray a0 \<Rightarrow>
                (case v1 of
                   Ndarray a1 \<Rightarrow> Inr (None, None, a0, a1)
                 | Tensor d1 a1 \<Rightarrow> Inl (External ''ndarray * Tensor''))
            | Tensor d0 a0 \<Rightarrow>
                (case v1 of
                   Ndarray a1 \<Rightarrow> Inl AttributeError
                 | Tensor d1 a1 \<Rightarrow> Inr (Some True, Some d0, a0, a1)))
      of
        Inl e \<Rightarrow> Inl e
      | Inr (inputs_are_torch, input_device, a0, a1) \<Rightarrow>
          if length a0 \<noteq> length a1 then Inl ValueError
          else
            (let v2 = interpolate t a0 a1 thr
             in case inputs_are_torch of
                  None \<Rightarrow> Inl (UnboundLocalError ''inputs_are_torch'')
                | Some b \<Rightarrow>
                    if b
                    then (case input_device of
                            None \<Rightarrow> Inl (UnboundLocalError ''input_device'')
                          | Some d \<Rightarrow> Inr (Tensor d v2))
                    else Inr (Ndarray v2)))"

definition slerp :: "real \<Rightarrow> vec \<Rightarrow> vec \<Rightarrow> error + vec" where
  "slerp t v0 v1 = slerp_with t v0 v1 DOT_THRESHOLD"

text \<open>
  \<^verbatim>\<open>np.linspace(start, stop, num)\<close> as NumPy computes it: a negative \<open>num\<close> is a
  ValueError; the samples are \<open>i * step + start\<close> with \<open>step = (stop - start) / (num - 1)\<close>,
  and the last one is overwritten with \<open>stop\<close> when there are at least two.
\<close>

definition linspace :: "real \<Rightarrow> real \<Rightarrow> int \<Rightarrow> error + real list" where
  "linspace start stop num =
     (if num < 0 then Inl ValueError
      else
        (let n = nat num;
             dv = num - 1;
             delta = stop - start;
             y = map real [0 ..< n];
             y' = (if dv > 0 then map (\<lambda>x. x * (delta / real_of_int dv) + start) y
                   else map (\<lambda>x. x * delta + start) y)
         in Inr (if num > 1 then y'[n - 1 := stop] else y')))"

section \<open>Effects\<close>

text \<open>
  What a run does to the outside, in order: what it prints, which collaborator it calls,
  which file it writes, which command it runs.
\<close>

datatype scheduler = default | ddim | klms

datatype 'img event =
    PrintSettingSeeds
  | PrintSeedsHeader
  | PrintSeed string int
  | PrintCount int int
  | PrintInterrupted
  | SetProgressBar bool
  | SetScheduler scheduler
  | Rmtree string
  | Makedirs string
  | EmbedText string
  | Randn int
  | Generate vec vec
  | Save string 'img
  | Call string

text \<open>
  A computation returns a value or raises, and leaves the events it got to. An exception
  is caught nowhere but in \<open>run_cmd\<close>, so \<open>seq\<close> stops at the first one and keeps the
  events before it.
\<close>

type_synonym ('a, 'img) comp = "(error + 'a) \<times> 'img event list"

definition ret :: "'a \<Rightarrow> ('a, 'img) comp" where
  "ret x = (Inr x, [])"

definition raise :: "error \<Rightarrow> ('a, 'img) comp" where
  "raise e = (Inl e, [])"

definition emit :: "'img event \<Rightarrow> (unit, 'img) comp" where
  "emit ev = (Inr (), [ev])"

definition lift :: "error + 'a \<Rightarrow> ('a, 'img) comp" where
  "lift r = (r, [])"

definition seq :: "('a, 'img) comp \<Rightarrow> ('a \<Rightarrow> ('b, 'img) comp) \<Rightarrow> ('b, 'img) comp" where
  "seq m f =
     (case m of
        (Inl e, tr) \<Rightarrow> (Inl e, tr)
      | (Inr x, tr) \<Rightarrow> (case f x of (r, tr') \<Rightarrow> (r, tr @ tr')))"

text \<open>A \<^verbatim>\<open>for\<close> loop over a list, threading the variables it updates.\<close>

fun for_each :: "('x \<Rightarrow> 's \<Rightarrow> ('s, 'img) comp) \<Rightarrow> 'x list \<Rightarrow> 's \<Rightarrow> ('s, 'img) comp" where
  "for_each body [] s = ret s"
| "for_each body (x # xs) s = seq (body x s) (for_each body xs)"

section \<open>The collaborators\<close>

text \<open>
  The pipeline (\<^verbatim>\<open>stable_diffusion_pipeline.py\<close>), torch and the shell are not part of
  \<^verbatim>\<open>predict.py\<close>: they are parameters of the model. Each may fail, and the script
  lets the failure through. A text embedding and a noise latent are torch tensors: a
  device and the entries. \<open>call\<close> is \<^verbatim>\<open>subprocess.call(command, shell=True)\<close>: it
  returns the exit status of the shell, or is interrupted.
\<close>

datatype call_result = Returned int | Raised error

record 'img externals =
  entropy :: tape
  outdir_exists :: bool
  embed_text :: "string \<Rightarrow> error + device \<times> real list"
  randn :: "int \<Rightarrow> error + device \<times> real list"
  torch_lerp :: "vec \<Rightarrow> vec \<Rightarrow> real \<Rightarrow> error + vec"
  pipeline :: "scheduler \<Rightarrow> int \<Rightarrow> real \<Rightarrow> vec \<Rightarrow> vec \<Rightarrow> error + 'img"
  call :: "string \<Rightarrow> call_result"

text \<open>Lines 124 and 138: \<^verbatim>\<open>self.pipeline.embed_text(prompt)\<close>.\<close>

definition embed_prompt :: "'img externals \<Rightarrow> string \<Rightarrow> (vec, 'img) comp" where
  "embed_prompt ext prompt =
     seq (emit (EmbedText prompt)) (\<lambda>_.
       case embed_text ext prompt of
         Inl e \<Rightarrow> raise e
       | Inr (d, a) \<Rightarrow> ret (Tensor d a))"

text \<open>Lines 127 to 133 and 141 to 147: \<^verbatim>\<open>torch.randn\<close> from a generator seeded with \<open>seed\<close>.\<close>

definition noise_latent :: "'img externals \<Rightarrow> int \<Rightarrow> (vec, 'img) comp" where
  "noise_latent ext seed =
     seq (emit (Randn seed)) (\<lambda>_.
       case randn ext seed of
         Inl e \<Rightarrow> raise e
       | Inr (d, a) \<Rightarrow> ret (Tensor d a))"

text \<open>
  Lines 160 to 169: one call of the pipeline, at the fixed height, width and eta, with
  the scheduler line 116 has set.
\<close>

definition generate ::
  "'img externals \<Rightarrow> scheduler \<Rightarrow> int \<Rightarrow> real \<Rightarrow> vec \<Rightarrow> vec \<Rightarrow> ('img, 'img) comp" where
  "generate ext sch num_inference_steps guidance_scale latents embeds =
     seq (emit (Generate latents embeds)) (\<lambda>_.
       lift (pipeline ext sch num_inference_steps guidance_scale latents embeds))"

section \<open>Prompt and seed preparation (lines 85 to 106)\<close>

definition parse_prompts :: "string \<Rightarrow> string list" where
  "parse_prompts prompts = map strip (split_on CHR ''|'' prompts)"

definition seed_tokens :: "string \<Rightarrow> string list" where
  "seed_tokens seeds = map strip (split_on CHR ''|'' seeds)"

text \<open>Lines 91 and 92: the loop of assertions, which runs before any conversion.\<close>

fun check_seeds :: "string list \<Rightarrow> error + unit" where
  "check_seeds [] = Inr ()"
| "check_seeds (s # ss) = (if isdigit s then check_seeds ss else Inl AssertionError)"

text \<open>Line 93: \<^verbatim>\<open>[int(s) for s in seeds]\<close>.\<close>

fun ints_of :: "string list \<Rightarrow> error + int list" where
  "ints_of [] = Inr []"
| "ints_of (s # ss) =
     (case py_int s of
        Inl e \<Rightarrow> Inl e
      | Inr n \<Rightarrow> (case ints_of ss of Inl e \<Rightarrow> Inl e | Inr ns \<Rightarrow> Inr (n # ns)))"

definition prepare :: "tape \<Rightarrow> string \<Rightarrow> string option \<Rightarrow> (string list \<times> int list, 'img) comp" where
  "prepare tp prompts_str seeds_str =
     (let prompts = parse_prompts prompts_str
      in case seeds_str of
           None \<Rightarrow>
             seq (emit PrintSettingSeeds) (\<lambda>_.
             ret (prompts, random_seeds tp (length prompts)))
         | Some s \<Rightarrow>
             (let tokens = seed_tokens s
              in seq (lift (check_seeds tokens)) (\<lambda>_.
                 seq (lift (ints_of tokens)) (\<lambda>seeds.
                   if length seeds > length prompts
                   then ret (prompts, take (length prompts) seeds)
                   else
                     (let seeds_not_set = length prompts - length seeds
                      in seq (emit PrintSettingSeeds) (\<lambda>_.
                         ret (prompts, seeds @ random_seeds tp seeds_not_set)))))))"

text \<open>Lines 104 to 106.\<close>

definition print_listing :: "string list \<Rightarrow> int list \<Rightarrow> (unit, 'img) comp" where
  "print_listing prompts seeds =
     (Inr (), PrintSeedsHeader # map (\<lambda>(prompt, seed). PrintSeed prompt seed) (zip prompts seeds))"

section \<open>The interpolation driver (lines 108 to 190)\<close>

definition disable_tqdm :: bool where
  "disable_tqdm = False"

definition use_lerp_for_text :: bool where
  "use_lerp_for_text = False"

definition outdir :: string where
  "outdir = ''cog_out''"

definition video_path :: string where
  "video_path = ''/tmp/out.mp4''"

text \<open>\<^verbatim>\<open>os.path.join\<close> of a directory and a relative name.\<close>

definition path_join :: "string \<Rightarrow> string \<Rightarrow> string" where
  "path_join d f = d @ ''/'' @ f"

text \<open>Line 171: \<^verbatim>\<open>os.path.join(outdir, "frame%06d.jpg" % frame_index)\<close>.\<close>

definition frame_path :: "nat \<Rightarrow> string" where
  "frame_path frame_index = path_join outdir (''frame'' @ fmt_06d frame_index @ ''.jpg'')"

text \<open>Lines 177 to 187.\<close>

definition ffmpeg_command :: "int \<Rightarrow> string" where
  "ffmpeg_command fps =
     ''ffmpeg -y -r '' @ str_int fps @ '' -i '' @ path_join outdir ''frame%06d.jpg''
       @ '' -vcodec libx264 -crf 25  -pix_fmt yuv420p '' @ video_path"

text \<open>
  Lines 150 to 172, the body of the inner loop: \<open>i\<close> counts the steps of the current
  pair of prompts, \<open>frame_index\<close> the frames of the run; \<open>frames_total\<close> is
  \<^verbatim>\<open>len(seeds)*num_steps\<close>.
\<close>

definition frame_step ::
  "'img externals \<Rightarrow> scheduler \<Rightarrow> int \<Rightarrow> real \<Rightarrow> int \<Rightarrow> vec \<Rightarrow> vec \<Rightarrow> vec \<Rightarrow> vec
     \<Rightarrow> nat \<times> real \<Rightarrow> nat \<Rightarrow> (nat, 'img) comp" where
  "frame_step ext sch num_inference_steps guidance_scale frames_total
       embeds_a embeds_b latents_a latents_b it frame_index =
     (case it of (i, t) \<Rightarrow>
       (let do_print_progress = (i = 0 \<or> (frame_index + 1) mod 20 = 0)
        in seq (if do_print_progress then emit (PrintCount (int frame_index + 1) frames_total)
                else ret ()) (\<lambda>_.
           seq (lift (if use_lerp_for_text then torch_lerp ext embeds_a embeds_b t
                      else slerp t embeds_a embeds_b)) (\<lambda>embeds.
           seq (lift (slerp t latents_a latents_b)) (\<lambda>latents.
           seq (generate ext sch num_inference_steps guidance_scale latents embeds) (\<lambda>im.
           seq (emit (Save (frame_path frame_index) im)) (\<lambda>_.
           ret (frame_index + 1))))))))"

text \<open>
  Lines 137 to 175, the body of the outer loop: the variables it carries over are the
  anchors \<^verbatim>\<open>embeds_a\<close>, \<^verbatim>\<open>latents_a\<close> and \<^verbatim>\<open>frame_index\<close>.
\<close>

definition pair_step ::
  "'img externals \<Rightarrow> scheduler \<Rightarrow> int \<Rightarrow> real \<Rightarrow> int \<Rightarrow> int
     \<Rightarrow> string \<times> int \<Rightarrow> vec \<times> vec \<times> nat \<Rightarrow> (vec \<times> vec \<times> nat, 'img) comp" where
  "pair_step ext sch num_inference_steps guidance_scale num_steps frames_total ps st =
     (case ps of (prompt, seed) \<Rightarrow>
      case st of (embeds_a, latents_a, frame_index) \<Rightarrow>
        seq (embed_prompt ext prompt) (\<lambda>embeds_b.
        seq (noise_latent ext seed) (\<lambda>latents_b.
        seq (lift (linspace 0 1 num_steps)) (\<lambda>ts.
        seq (for_each
               (frame_step ext sch num_inference_steps guidance_scale frames_total
                  embeds_a embeds_b latents_a latents_b)
               (enumerate 0 ts) frame_index) (\<lambda>frame_index'.
        ret (embeds_b, latents_b, frame_index'))))))"

text \<open>
  Lines 1 to 15 and the \<^verbatim>\<open>def\<close>s: the names the module binds. \<^verbatim>\<open>sys\<close> is not
  among them, and it is no builtin: reading it raises NameError.
\<close>

definition module_globals :: "string list" where
  "module_globals =
     [''os'', ''call'', ''Optional'', ''List'', ''shutil'', ''np'', ''torch'', ''autocast'',
      ''DDIMScheduler'', ''LMSDiscreteScheduler'', ''PNDMScheduler'', ''Image'',
      ''BasePredictor'', ''Input'', ''Path'', ''StableDiffusionPipeline'', ''MODEL_CACHE'',
      ''Predictor'', ''run_cmd'', ''slerp'']"

definition global_name :: "string \<Rightarrow> error + unit" where
  "global_name x = (if x \<in> set module_globals then Inr () else Inl (NameError x))"

text \<open>Lines 193 to 198. The handler catches KeyboardInterrupt and nothing else.\<close>

definition run_cmd :: "'img externals \<Rightarrow> string \<Rightarrow> (unit, 'img) comp" where
  "run_cmd ext command =
     seq (emit (Call command)) (\<lambda>_.
       case call ext command of
         Returned status \<Rightarrow> ret ()
       | Raised e \<Rightarrow>
           if e = KeyboardInterrupt
           then seq (emit PrintInterrupted) (\<lambda>_.
                seq (lift (global_name ''sys'')) (\<lambda>_.
                raise (SystemExit 1)))
           else raise e)"

text \<open>
  \<^verbatim>\<open>Predictor.predict\<close>, lines 85 to 190. An unpacking
  \<^verbatim>\<open>first, *rest = xs\<close> of an empty list raises ValueError.
\<close>

definition predict ::
  "'img externals \<Rightarrow> string \<Rightarrow> string option \<Rightarrow> scheduler \<Rightarrow> int \<Rightarrow> real \<Rightarrow> int \<Rightarrow> int
     \<Rightarrow> (string, 'img) comp" where
  "predict ext prompts_str seeds_str sch num_inference_steps guidance_scale num_steps fps =
     seq (prepare (entropy ext) prompts_str seeds_str) (\<lambda>(prompts, seeds).
     seq (print_listing prompts seeds) (\<lambda>_.
     seq (emit (SetProgressBar disable_tqdm)) (\<lambda>_.
     seq (emit (SetScheduler sch)) (\<lambda>_.
     seq (if outdir_exists ext then emit (Rmtree outdir) else ret ()) (\<lambda>_.
     seq (emit (Makedirs outdir)) (\<lambda>_.
     case prompts of
       [] \<Rightarrow> raise ValueError
     | first_prompt # prompts' \<Rightarrow>
         seq (embed_prompt ext first_prompt) (\<lambda>embeds_a.
         case seeds of
           [] \<Rightarrow> raise ValueError
         | first_seed # seeds' \<Rightarrow>
             seq (noise_latent ext first_seed) (\<lambda>latents_a.
             seq (for_each
                    (pair_step ext sch num_inference_steps guidance_scale num_steps
                       (int (length seeds') * num_steps))
                    (zip prompts' seeds') (embeds_a, latents_a, 0)) (\<lambda>_.
             seq (run_cmd ext (ffmpeg_command fps)) (\<lambda>_.
             ret video_path))))))))))"

section \<open>Observations on a run\<close>

text \<open>The files a run has saved, in order.\<close>

definition saved_files :: "'img event list \<Rightarrow> string list" where
  "saved_files tr = concat (map (\<lambda>ev. case ev of Save f im \<Rightarrow> [f] | _ \<Rightarrow> []) tr)"

text \<open>The frame numbers a run has printed as \<^verbatim>\<open>COUNT: k/n\<close>, in order.\<close>

definition progress_counts :: "'img event list \<Rightarrow> int list" where
  "progress_counts tr = concat (map (\<lambda>ev. case ev of PrintCount k n \<Rightarrow> [k] | _ \<Rightarrow> []) tr)"

text \<open>The calls of the pipeline, in order.\<close>

definition generations :: "'img event list \<Rightarrow> (vec \<times> vec) list" where
  "generations tr = concat (map (\<lambda>ev. case ev of Generate l e \<Rightarrow> [(l, e)] | _ \<Rightarrow> []) tr)"

text \<open>A run without its progress lines, and two runs that differ in them only.\<close>

definition erase_progress :: "'img event list \<Rightarrow> 'img event list" where
  "erase_progress tr = filter (\<lambda>ev. case ev of PrintCount k n \<Rightarrow> False | _ \<Rightarrow> True) tr"

definition agree :: "('a, 'img) comp \<Rightarrow> ('a, 'img) comp \<Rightarrow> bool" where
  "agree c1 c2 = (fst c1 = fst c2 \<and> erase_progress (snd c1) = erase_progress (snd c2))"

text \<open>
  The driver with the condition of line 150 replaced by an arbitrary one, \<open>pr\<close>: what the
  run would be if it reported progress at other steps, or never.
\<close>

definition frame_step_with ::
  "(nat \<Rightarrow> nat \<Rightarrow> bool) \<Rightarrow> 'img externals \<Rightarrow> scheduler \<Rightarrow> int \<Rightarrow> real \<Rightarrow> int
     \<Rightarrow> vec \<Rightarrow> vec \<Rightarrow> vec \<Rightarrow> vec \<Rightarrow> nat \<times> real \<Rightarrow> nat \<Rightarrow> (nat, 'img) comp" where
  "frame_step_with pr ext sch num_inference_steps guidance_scale frames_total
       embeds_a embeds_b latents_a latents_b it frame_index =
     (case it of (i, t) \<Rightarrow>
       (let do_print_progress = pr i frame_index
        in seq (if do_print_progress then emit (PrintCount (int frame_index + 1) frames_total)
                else ret ()) (\<lambda>_.
           seq (lift (if use_lerp_for_text then torch_lerp ext embeds_a embeds_b t
                      else slerp t embeds_a embeds_b)) (\<lambda>embeds.
           seq (lift (slerp t latents_a latents_b)) (\<lambda>latents.
           seq (generate ext sch num_inference_steps guidance_scale latents embeds) (\<lambda>im.
           seq (emit (Save (frame_path frame_index) im)) (\<lambda>_.
           ret (frame_index + 1))))))))"

definition pair_step_with ::
  "(nat \<Rightarrow> nat \<Rightarrow> bool) \<Rightarrow> 'img externals \<Rightarrow> scheduler \<Rightarrow> int \<Rightarrow> real \<Rightarrow> int \<Rightarrow> int
     \<Rightarrow> string \<times> int \<Rightarrow> vec \<times> vec \<times> nat \<Rightarrow> (vec \<times> vec \<times> nat, 'img) comp" where
  "pair_step_with pr ext sch num_inference_steps guidance_scale num_steps frames_total ps st =
     (case ps of (prompt, seed) \<Rightarrow>
      case st of (embeds_a, latents_a, frame_index) \<Rightarrow>
        seq (embed_prompt ext prompt) (\<lambda>embeds_b.
        seq (noise_latent ext seed) (\<lambda>latents_b.
        seq (lift (linspace 0 1 num_steps)) (\<lambda>ts.
        seq (for_each
               (frame_step_with pr ext sch num_inference_steps guidance_scale frames_total
                  embeds_a embeds_b latents_a latents_b)
               (enumerate 0 ts) frame_index) (\<lambda>frame_index'.
        ret (embeds_b, latents_b, frame_index'))))))"

definition predict_with ::
  "(nat \<Rightarrow> nat \<Rightarrow> bool) \<Rightarrow> 'img externals \<Rightarrow> string \<Rightarrow> string option \<Rightarrow> scheduler \<Rightarrow> int
     \<Rightarrow> real \<Rightarrow> int \<Rightarrow> int \<Rightarrow> (string, 'img) comp" where
  "predict_with pr ext prompts_str seeds_str sch num_inference_steps guidance_scale num_steps fps =
     seq (prepare (entropy ext) prompts_str seeds_str) (\<lambda>(prompts, seeds).
     seq (print_listing prompts seeds) (\<lambda>_.
     seq (emit (SetProgressBar disable_tqdm)) (\<lambda>_.
     seq (emit (SetScheduler sch)) (\<lambda>_.
     seq (if outdir_exists ext then emit (Rmtree outdir) else ret ()) (\<lambda>_.
     seq (emit (Makedirs outdir)) (\<lambda>_.
     case prompts of
       [] \<Rightarrow> raise ValueError
     | first_prompt # prompts' \<Rightarrow>
         seq (embed_prompt ext first_prompt) (\<lambda>embeds_a.
         case seeds of
           [] \<Rightarrow> raise ValueError
         | first_seed # seeds' \<Rightarrow>
             seq (noise_latent ext first_seed) (\<lambda>latents_a.
             seq (for_each
                    (pair_step_with pr ext sch num_inference_steps guidance_scale num_steps
                       (int (length seeds') * num_steps))
                    (zip prompts' seeds') (embeds_a, latents_a, 0)) (\<lambda>_.
             seq (run_cmd ext (ffmpeg_command fps)) (\<lambda>_.
             ret video_path))))))))))"

section \<open>Assumptions on the inputs and the collaborators\<close>

text \<open>
  The collaborators work: every prompt is embedded to a tensor of one shape, every seed
  gives a noise tensor of one shape, and the pipeline returns an image.
\<close>

definition collaborators_ok :: "'img externals \<Rightarrow> scheduler \<Rightarrow> int \<Rightarrow> real \<Rightarrow> bool" where
  "collaborators_ok ext sch num_inference_steps guidance_scale =
     ((\<exists>m. \<forall>prompt. \<exists>d a. embed_text ext prompt = Inr (d, a) \<and> length a = m) \<and>
      (\<exists>l. \<forall>seed. \<exists>d a. randn ext seed = Inr (d, a) \<and> length a = l) \<and>
      (\<forall>latents embeds.
         \<not> isl (pipeline ext sch num_inference_steps guidance_scale latents embeds)))"

text \<open>No seed string, or one that passes lines 91 to 93.\<close>

definition seeds_accepted :: "string option \<Rightarrow> bool" where
  "seeds_accepted seeds_str =
     (case seeds_str of
        None \<Rightarrow> True
      | Some s \<Rightarrow> check_seeds (seed_tokens s) = Inr () \<and> \<not> isl (ints_of (seed_tokens s)))"



text \<open>A tensor of \<open>n\<close> entries.\<close>

definition sized :: "nat \<Rightarrow> vec \<Rightarrow> bool" where
  "sized n v = (case v of Ndarray a \<Rightarrow> False | Tensor d a \<Rightarrow> length a = n)"

text \<open>
  Collaborators for a concrete run: the entropy tape 0, 1, 2, ..., constant tensors, a
  pipeline that returns the empty image, and a shell that answers \<open>r\<close>.
\<close>

definition stub :: "call_result \<Rightarrow> unit externals" where
  "stub r =
     \<lparr> entropy = (\<lambda>i. of_nat i),
       outdir_exists = True,
       embed_text = (\<lambda>prompt. Inr (Cuda, [1, 0])),
       randn = (\<lambda>seed. Inr (Cuda, [0, 1])),
       torch_lerp = (\<lambda>a b t. Inr a),
       pipeline = (\<lambda>sch n g latents embeds. Inr ()),
       call = (\<lambda>command. r) \<rparr>"

section \<open>The interpolation function\<close>

lemma slerp_with_ndarray:
  "length a = length b \<Longrightarrow>
     slerp_with t (Ndarray a) (Ndarray b) thr = Inl (UnboundLocalError ''inputs_are_torch'')"
  by (simp add: slerp_with_def)

lemma slerp_with_tensor:
  "length a = length b \<Longrightarrow>
     slerp_with t (Tensor d a) (Tensor d' b) thr = Inr (Tensor d (interpolate t a b thr))"
  by (simp add: slerp_with_def)

lemma interpolate_fallback:
  "\<bar>cosine a b\<bar> > thr \<Longrightarrow> interpolate t a b thr = lerp t a b"
  by (simp add: interpolate_def)

lemma slerp_tensor_fallback:
  "length a = length b \<Longrightarrow> \<bar>cosine a b\<bar> > DOT_THRESHOLD \<Longrightarrow>
     slerp t (Tensor d a) (Tensor d' b) = Inr (Tensor d (lerp t a b))"
  by (simp add: slerp_def slerp_with_tensor interpolate_fallback)

lemma cosine_unit: "cosine [1, 0] [1, 0] = 1"
  by (simp add: cosine_def linalg_norm_def)

text \<open>
  On tensors of a non-zero norm, in exact arithmetic, the function does what its contract
  says: identical operands take the linear branch and give the operand back, and the
  endpoints \<open>t = 0\<close> and \<open>t = 1\<close> give \<open>v0\<close> and \<open>v1\<close>. At a zero norm NumPy
  computes NaN, and nothing is said.
\<close>

lemma map2_same: "map2 f a a = map (\<lambda>x. f x x) a"
  by (induction a) auto

lemma sum_list_divide: "sum_list (map (\<lambda>x. f x / c) xs) = sum_list (map f xs) / (c :: real)"
  by (induction xs) (simp_all add: add_divide_distrib)

lemma cosine_self:
  assumes "linalg_norm a \<noteq> 0"
  shows "cosine a a = 1"
proof -
  let ?q = "sum_list (map (\<lambda>x. x * x) a)"
  have nonneg: "0 \<le> ?q"
    by (rule sum_list_nonneg) auto
  then have sq: "linalg_norm a * linalg_norm a = ?q"
    by (simp add: linalg_norm_def)
  have "?q \<noteq> 0"
    using assms sq by auto
  then show ?thesis
    by (simp add: cosine_def map2_same sq sum_list_divide)
qed

lemma lerp_same: "lerp t a a = a"
  by (simp add: lerp_def map2_same algebra_simps map_idI)

lemma slerp_same_tensor:
  assumes "linalg_norm a \<noteq> 0"
  shows "slerp t (Tensor d a) (Tensor d' a) = Inr (Tensor d a)"
  using cosine_self [OF assms]
  by (simp add: slerp_def slerp_with_tensor interpolate_def DOT_THRESHOLD_def lerp_same)

lemma map2_left:
  "length a = length b \<Longrightarrow> p = 1 \<Longrightarrow> q = 0 \<Longrightarrow>
     map2 (\<lambda>x y. p * x + q * y) a b = (a :: real list)"
  by (induction a b rule: list_induct2) auto

lemma map2_right:
  "length a = length b \<Longrightarrow> p = 0 \<Longrightarrow> q = 1 \<Longrightarrow>
     map2 (\<lambda>x y. p * x + q * y) a b = (b :: real list)"
  by (induction a b rule: list_induct2) auto

lemma interpolate_endpoints:
  assumes "length a = length b" and "thr < 1"
    and "linalg_norm a \<noteq> 0" and "linalg_norm b \<noteq> 0"
  shows "interpolate 0 a b thr = a" and "interpolate 1 a b thr = b"
proof -
  have both: "interpolate 0 a b thr = a \<and> interpolate 1 a b thr = b"
  proof (cases "\<bar>cosine a b\<bar> > thr")
    case True
    have "lerp 0 a b = a" and "lerp 1 a b = b"
      unfolding lerp_def
      by (rule map2_left [OF assms(1)] map2_right [OF assms(1)]; simp)+
    then show ?thesis
      using True by (simp add: interpolate_def)
  next
    case False
    then have "- 1 < cosine a b" "cosine a b < 1"
      using assms(2) by auto
    then have "0 < arccos (cosine a b)" "arccos (cosine a b) < pi"
      by (simp_all add: arccos_lt_bounded)
    then have "0 < sin (arccos (cosine a b))"
      by (rule sin_gt_zero)
    then have s: "sin (arccos (cosine a b)) \<noteq> 0" by simp
    have "spherical 0 (cosine a b) a b = a"
      unfolding spherical_def Let_def
      by (rule map2_left [OF assms(1)]) (simp_all add: s)
    moreover have "spherical 1 (cosine a b) a b = b"
      unfolding spherical_def Let_def
      by (rule map2_right [OF assms(1)]) (simp_all add: s)
    ultimately show ?thesis
      using False by (simp add: interpolate_def)
  qed
  show "interpolate 0 a b thr = a" and "interpolate 1 a b thr = b"
    using both by simp_all
qed

lemma slerp_tensor_endpoints:
  assumes "length a = length b" and "linalg_norm a \<noteq> 0" and "linalg_norm b \<noteq> 0"
  shows "slerp 0 (Tensor d a) (Tensor d' b) = Inr (Tensor d a)"
    and "slerp 1 (Tensor d a) (Tensor d' b) = Inr (Tensor d b)"
  using interpolate_endpoints [OF assms(1) _ assms(2) assms(3), of DOT_THRESHOLD]
  by (simp_all add: slerp_def slerp_with_tensor [OF assms(1)] DOT_THRESHOLD_def)

text \<open>
  C3. The near-parallel fallback. The property is about every pair of vectors. On
  tensors the branch is taken (\<open>slerp_tensor_fallback\<close>, \<open>slerp_same_tensor\<close>); on a
  pair of arrays whose cosine is above the threshold (here 1) the linear interpolation
  is computed and then lost: line 222 reads a local that was never bound.
\<close>

theorem slerp_fallback_on_arrays:
  "\<bar>cosine [1, 0] [1, 0]\<bar> > DOT_THRESHOLD
   \<and> interpolate (1 / 2) [1, 0] [1, 0] DOT_THRESHOLD = lerp (1 / 2) [1, 0] [1, 0]
   \<and> slerp (1 / 2) (Ndarray [1, 0]) (Ndarray [1, 0])
       = Inl (UnboundLocalError ''inputs_are_torch'')"
  by (simp add: cosine_unit DOT_THRESHOLD_def interpolate_def slerp_def slerp_with_ndarray)

text \<open>
  C4. The two representations. Given arrays of one shape, \<open>slerp\<close> raises
  UnboundLocalError instead of returning an array; given tensors, it returns a tensor on
  the device of \<open>v0\<close>.
\<close>

theorem slerp_representation:
  "length a = length b \<Longrightarrow>
     slerp t (Ndarray a) (Ndarray b) = Inl (UnboundLocalError ''inputs_are_torch'')
     \<and> slerp t (Tensor d a) (Tensor d' b) = Inr (Tensor d (interpolate t a b DOT_THRESHOLD))"
  by (simp add: slerp_def slerp_with_ndarray slerp_with_tensor)

theorem slerp_representation_witness:
  "slerp (1 / 2) (Ndarray [1, 0]) (Ndarray [0, 1]) = Inl (UnboundLocalError ''inputs_are_torch'')
   \<and> slerp (1 / 2) (Tensor Cuda [1, 0]) (Tensor Cpu [0, 1])
       = Inr (Tensor Cuda (interpolate (1 / 2) [1, 0] [0, 1] DOT_THRESHOLD))"
  using slerp_representation [of "[1, 0]" "[0, 1]" "1 / 2" Cuda Cpu] by simp

text \<open>
  C6. The endpoints. On tensors they are met in exact arithmetic
  (\<open>slerp_tensor_endpoints\<close>). At \<open>t = 0\<close> and at \<open>t = 1\<close> a pair of arrays gets no
  result at all, so neither \<open>v0\<close> nor \<open>v1\<close>.
\<close>

theorem slerp_endpoints_on_arrays:
  "slerp 0 (Ndarray [1, 0]) (Ndarray [0, 1]) = Inl (UnboundLocalError ''inputs_are_torch'')
   \<and> slerp 1 (Ndarray [1, 0]) (Ndarray [0, 1]) = Inl (UnboundLocalError ''inputs_are_torch'')"
  by (simp add: slerp_def slerp_with_ndarray)

section \<open>The samples of the interpolation parameter\<close>

lemma linspace_unit:
  assumes "0 \<le> n"
  shows "linspace 0 1 n
       = Inr (map (\<lambda>i. if n = 1 then 0 else real i / real_of_int (n - 1)) [0 ..< nat n])"
proof (cases "2 \<le> n")
  case True
  have "(map (\<lambda>x. x * (1 / real_of_int (n - 1))) (map real [0 ..< nat n]))[nat n - 1 := 1]
      = map (\<lambda>i. real i / real_of_int (n - 1)) [0 ..< nat n]"
  proof (rule nth_equalityI)
    show "length ((map (\<lambda>x. x * (1 / real_of_int (n - 1))) (map real [0 ..< nat n]))[nat n - 1 := 1])
        = length (map (\<lambda>i. real i / real_of_int (n - 1)) [0 ..< nat n])"
      by simp
  next
    fix i
    assume "i < length ((map (\<lambda>x. x * (1 / real_of_int (n - 1))) (map real [0 ..< nat n]))[nat n - 1 := 1])"
    then have i: "i < nat n" by simp
    show "(map (\<lambda>x. x * (1 / real_of_int (n - 1))) (map real [0 ..< nat n]))[nat n - 1 := 1] ! i
        = map (\<lambda>i. real i / real_of_int (n - 1)) [0 ..< nat n] ! i"
    proof (cases "i = nat n - 1")
      case True
      have "real (nat n - 1) = real_of_int (n - 1)"
        using \<open>2 \<le> n\<close> by (simp add: of_nat_diff)
      then show ?thesis
        using True i \<open>2 \<le> n\<close> by (simp add: nth_list_update)
    next
      case False
      then show ?thesis
        using i by (simp add: nth_list_update)
    qed
  qed
  then show ?thesis
    using True by (simp add: linspace_def Let_def)
next
  case False
  then have "n = 0 \<or> n = 1" using assms by linarith
  then show ?thesis
    by (auto simp: linspace_def Let_def)
qed

lemma linspace_length:
  assumes "0 \<le> n"
  shows "\<exists>ts. linspace 0 1 n = Inr ts \<and> length ts = nat n"
  using linspace_unit [OF assms] by simp

lemma seq_lift_Inr: "seq (lift (Inr x)) f = f x"
  by (cases "f x") (simp add: lift_def seq_def)

lemma pair_step_samples:
  assumes "linspace 0 1 num_steps = Inr ts"
  shows "pair_step ext sch nis gs num_steps frames_total (prompt, seed) (embeds_a, latents_a, fi)
       = seq (embed_prompt ext prompt) (\<lambda>embeds_b.
         seq (noise_latent ext seed) (\<lambda>latents_b.
         seq (for_each (frame_step ext sch nis gs frames_total embeds_a embeds_b latents_a latents_b)
                (enumerate 0 ts) fi) (\<lambda>frame_index'.
         ret (embeds_b, latents_b, frame_index'))))"
  by (simp only: pair_step_def prod.case assms seq_lift_Inr)

text \<open>
  C7, as the code has it. For a step count of at least 2 the parameter takes the
  \<open>num_steps\<close> values \<open>i / (num_steps - 1)\<close>, from 0 to 1; a step count of 1 gives the
  single value 0, and a step count of 0 gives none. For every pair of prompts, the inner
  loop of line 149 runs over these values, each with its index.
\<close>

theorem interpolation_samples:
  assumes "0 \<le> num_steps"
  shows "linspace 0 1 num_steps
           = Inr (map (\<lambda>i. if num_steps = 1 then 0 else real i / real_of_int (num_steps - 1))
                    [0 ..< nat num_steps])
       \<and> length (projr (linspace 0 1 num_steps)) = nat num_steps
       \<and> (2 \<le> num_steps \<longrightarrow>
            hd (projr (linspace 0 1 num_steps)) = 0
            \<and> last (projr (linspace 0 1 num_steps)) = 1)
       \<and> pair_step ext sch nis gs num_steps frames_total (prompt, seed) (embeds_a, latents_a, fi)
           = seq (embed_prompt ext prompt) (\<lambda>embeds_b.
             seq (noise_latent ext seed) (\<lambda>latents_b.
             seq (for_each
                    (frame_step ext sch nis gs frames_total embeds_a embeds_b latents_a latents_b)
                    (enumerate 0
                       (map (\<lambda>i. if num_steps = 1 then 0
                                  else real i / real_of_int (num_steps - 1))
                          [0 ..< nat num_steps]))
                    fi) (\<lambda>frame_index'.
             ret (embeds_b, latents_b, frame_index'))))"
proof -
  let ?ts = "map (\<lambda>i. if num_steps = 1 then 0 else real i / real_of_int (num_steps - 1))
               [0 ..< nat num_steps]"
  have eq: "linspace 0 1 num_steps = Inr ?ts"
    by (rule linspace_unit [OF assms])
  have ends: "hd ?ts = 0 \<and> last ?ts = 1" if "2 \<le> num_steps"
  proof -
    have ne: "[0 ..< nat num_steps] \<noteq> []" using that by simp
    have "real (nat num_steps - 1) = real_of_int (num_steps - 1)"
      using that by (simp add: of_nat_diff)
    then show ?thesis
      using that ne by (simp add: hd_map last_map hd_upt)
  qed
  have first: "linspace 0 1 num_steps = Inr ?ts
       \<and> length (projr (linspace 0 1 num_steps)) = nat num_steps
       \<and> (2 \<le> num_steps \<longrightarrow>
            hd (projr (linspace 0 1 num_steps)) = 0
            \<and> last (projr (linspace 0 1 num_steps)) = 1)"
    using ends by (simp add: eq)
  show ?thesis
    using first pair_step_samples [OF eq] by blast
qed

lemma samples_3:
  "map (\<lambda>i. if (3 :: int) = 1 then 0 else real i / real_of_int (3 - 1)) [0 ..< nat 3]
     = [0, 1 / 2, 1]"
  by (simp add: upt_rec)

lemma enumerate_3: "enumerate 0 [0, 1 / 2, 1 :: real] = [(0, 0), (1, 1 / 2), (2, 1)]"
  by (simp add: enumerate_eq_zip upt_rec)

theorem interpolation_samples_witness:
  "linspace 0 1 3 = Inr [0, 1 / 2, 1]
   \<and> length (projr (linspace 0 1 3)) = 3
   \<and> hd (projr (linspace 0 1 3)) = 0 \<and> last (projr (linspace 0 1 3)) = 1
   \<and> pair_step (stub (Returned 0)) klms 50 (15 / 2) 3 6 (''b'', 7)
        (Tensor Cuda [1, 0], Tensor Cuda [0, 1], 0)
       = seq (embed_prompt (stub (Returned 0)) ''b'') (\<lambda>embeds_b.
         seq (noise_latent (stub (Returned 0)) 7) (\<lambda>latents_b.
         seq (for_each
                (frame_step (stub (Returned 0)) klms 50 (15 / 2) 6
                   (Tensor Cuda [1, 0]) embeds_b (Tensor Cuda [0, 1]) latents_b)
                [(0, 0), (1, 1 / 2), (2, 1)] 0) (\<lambda>frame_index'.
         ret (embeds_b, latents_b, frame_index'))))"
proof -
  have k: "(0 :: int) \<le> 3" by simp
  note w = interpolation_samples [OF k, of "stub (Returned 0)" klms 50 "15 / 2" 6 "''b''" 7
      "Tensor Cuda [1, 0]" "Tensor Cuda [0, 1]" 0, unfolded samples_3 enumerate_3]
  have "linspace 0 1 3 = Inr [0, 1 / 2, 1]" using w by blast
  then have "length (projr (linspace 0 1 3)) = 3
      \<and> hd (projr (linspace 0 1 3)) = 0 \<and> last (projr (linspace 0 1 3)) = 1"
    by simp
  then show ?thesis using w by blast
qed

text \<open>
  C7, as the spec has it, fails at one step: the only sample is 0, and 1 is not reached;
  the inner loop of a pair of prompts runs once, at 0.
\<close>

theorem single_sample_misses_one:
  "\<not> (\<exists>ts. linspace 0 1 1 = Inr ts \<and> length ts = 1 \<and> hd ts = 0 \<and> last ts = 1)
   \<and> pair_step (stub (Returned 0)) klms 50 (15 / 2) 1 1 (''b'', 7)
        (Tensor Cuda [1, 0], Tensor Cuda [0, 1], 0)
       = seq (embed_prompt (stub (Returned 0)) ''b'') (\<lambda>embeds_b.
         seq (noise_latent (stub (Returned 0)) 7) (\<lambda>latents_b.
         seq (for_each
                (frame_step (stub (Returned 0)) klms 50 (15 / 2) 1
                   (Tensor Cuda [1, 0]) embeds_b (Tensor Cuda [0, 1]) latents_b)
                [(0, 0)] 0) (\<lambda>frame_index'.
         ret (embeds_b, latents_b, frame_index'))))"
proof -
  have one: "linspace 0 1 1 = Inr [0]"
    by (simp add: linspace_def)
  have e: "enumerate 0 [0 :: real] = [(0, 0)]"
    by (simp add: enumerate_eq_zip)
  show ?thesis
    using pair_step_samples [OF one, of "stub (Returned 0)" klms 50 "15 / 2" 1 "''b''" 7
        "Tensor Cuda [1, 0]" "Tensor Cuda [0, 1]" 0, unfolded e]
    by (simp add: one)
qed

section \<open>The encoder invocation\<close>

lemma run_cmd_returned:
  "call ext c = Returned status \<Longrightarrow> run_cmd ext c = (Inr (), [Call c])"
  by (simp add: run_cmd_def seq_def emit_def ret_def)

text \<open>
  C9. The interrupt. When the encoder call is interrupted, the handler prints its line
  and then reads \<^verbatim>\<open>sys\<close>, which the module never imports: the run ends with NameError,
  not with an exit of status 1.
\<close>

theorem run_cmd_interrupted:
  "call ext c = Raised KeyboardInterrupt \<Longrightarrow>
     run_cmd ext c = (Inl (NameError ''sys''), [Call c, PrintInterrupted])"
  by (simp add: run_cmd_def seq_def emit_def ret_def lift_def raise_def global_name_def
      module_globals_def)

theorem run_cmd_interrupted_witness:
  "run_cmd (stub (Raised KeyboardInterrupt)) (ffmpeg_command 15)
     = (Inl (NameError ''sys''), [Call (ffmpeg_command 15), PrintInterrupted])"
  using run_cmd_interrupted [of "stub (Raised KeyboardInterrupt)" "ffmpeg_command 15"]
  by (simp add: stub_def)

section \<open>Sequencing and observations\<close>

lemmas comp_defs = ret_def emit_def lift_def raise_def

lemma seq_Inr [simp]: "seq (Inr x, tr) f = (case f x of (r, tr') \<Rightarrow> (r, tr @ tr'))"
  by (simp add: seq_def)

lemma seq_Inl [simp]: "seq (Inl e, tr) f = (Inl e, tr)"
  by (simp add: seq_def)

lemma fst_tail [simp]: "fst (case p of (r, tr') \<Rightarrow> (r, tr @ tr')) = fst p"
  by (cases p) simp

lemma snd_tail [simp]: "snd (case p of (r, tr') \<Rightarrow> (r, tr @ tr')) = tr @ snd p"
  by (cases p) simp

lemma saved_files_simps [simp]:
  "saved_files [] = []"
  "saved_files (ev # tr) = (case ev of Save f im \<Rightarrow> [f] | _ \<Rightarrow> []) @ saved_files tr"
  "saved_files (tr @ tr') = saved_files tr @ saved_files tr'"
  by (simp_all add: saved_files_def)

lemma progress_counts_simps [simp]:
  "progress_counts [] = []"
  "progress_counts (ev # tr) = (case ev of PrintCount k n \<Rightarrow> [k] | _ \<Rightarrow> []) @ progress_counts tr"
  "progress_counts (tr @ tr') = progress_counts tr @ progress_counts tr'"
  by (simp_all add: progress_counts_def)

lemma generations_simps [simp]:
  "generations [] = []"
  "generations (ev # tr) = (case ev of Generate l e \<Rightarrow> [(l, e)] | _ \<Rightarrow> []) @ generations tr"
  "generations (tr @ tr') = generations tr @ generations tr'"
  by (simp_all add: generations_def)

lemma listing_quiet:
  "saved_files (map (\<lambda>(p, s). PrintSeed p s) xs) = []"
  "progress_counts (map (\<lambda>(p, s). PrintSeed p s) xs) = []"
  "generations (map (\<lambda>(p, s). PrintSeed p s) xs) = []"
  by (induction xs) (auto)

lemma prints_quiet:
  assumes "set tr \<subseteq> {PrintSettingSeeds}"
  shows "saved_files tr = []" and "progress_counts tr = []" and "generations tr = []"
  using assms by (induction tr) (auto)

section \<open>Splitting and validation\<close>

lemma split_on_nonempty: "split_on sep s \<noteq> []"
  by (induction s) (auto split: list.splits)

lemma length_split_on: "length (split_on sep s) = Suc (count_list s sep)"
  by (induction s) (auto split: list.splits simp: split_on_nonempty)

lemma split_on_no_sep: "sep \<notin> set s \<Longrightarrow> split_on sep s = [s]"
  by (induction s) auto

lemma parse_prompts_nonempty: "parse_prompts p \<noteq> []"
  by (simp add: parse_prompts_def split_on_nonempty)



lemma ints_of_length: "ints_of toks = Inr ns \<Longrightarrow> length ns = length toks"
  by (induction toks arbitrary: ns) (auto split: sum.splits)

lemma uint_byte_bound: "uint (b :: 8 word) < 256"
  using uint_bounded [of b] by simp

lemma random_seeds_range:
  "list_all (\<lambda>seed. 0 \<le> seed \<and> seed < 65536) (random_seeds tp n)"
proof -
  have "0 \<le> uint (tp k) * 256 + uint (tp (Suc k)) \<and> uint (tp k) * 256 + uint (tp (Suc k)) < 65536"
    for k
    using uint_byte_bound [of "tp k"] uint_byte_bound [of "tp (Suc k)"]
    by (simp add: add_nonneg_nonneg)
  then show ?thesis
    by (simp add: random_seeds_def list_all_iff urandom_def int_from_bytes_big_def upt_rec [of "2 * k" for k])
qed

lemma prepare_given:
  assumes "check_seeds (seed_tokens s) = Inr ()" and "ints_of (seed_tokens s) = Inr given"
  shows "prepare tp p (Some s)
       = (if length given > length (parse_prompts p)
          then (Inr (parse_prompts p, take (length (parse_prompts p)) given), [])
          else (Inr (parse_prompts p,
                     given @ random_seeds tp (length (parse_prompts p) - length given)),
                [PrintSettingSeeds]))"
  using assms by (simp add: prepare_def Let_def comp_defs)

lemma prepare_none:
  "prepare tp p None
     = (Inr (parse_prompts p, random_seeds tp (length (parse_prompts p))), [PrintSettingSeeds])"
  by (simp add: prepare_def Let_def comp_defs)


lemma prepare_accepted:
  assumes "seeds_accepted seeds"
  shows "\<exists>ss tr. prepare tp p seeds = (Inr (parse_prompts p, ss), tr)
           \<and> length ss = length (parse_prompts p) \<and> set tr \<subseteq> {PrintSettingSeeds}"
proof (cases seeds)
  case None
  then show ?thesis by (simp add: prepare_none random_seeds_def)
next
  case (Some s)
  then obtain given where g: "check_seeds (seed_tokens s) = Inr ()" "ints_of (seed_tokens s) = Inr given"
    using assms by (auto simp: seeds_accepted_def) (metis sum.collapse(2))
  show ?thesis
    unfolding Some prepare_given [OF g] by (simp add: random_seeds_def)
qed

text \<open>
  A token of superscript digits passes the assertion of line 92 and fails in the
  conversion of line 93: the run ends with ValueError, before any seed list.
\<close>

lemma superscript_seed:
  "prepare tp p (Some [CHR 0xB2]) = (Inl ValueError, [])"
  by (simp add: prepare_def seed_tokens_def strip_def isspace_char_def code_point_def
      isdigit_def isdigit_char_def py_int_def isdecimal_char_def comp_defs)

text \<open>
  C1. Alignment. A seed string that passes the validation yields the seeds \<open>given\<close>, one
  per token. The prompts are the \<open>P\<close> pieces between the delimiters, and the aligned
  seeds are \<open>P\<close> too: the first \<open>P\<close> of \<open>given\<close> when there are at least \<open>P\<close>, and
  otherwise \<open>given\<close>, in order, followed by \<open>P - S\<close> seeds read from the entropy source.
\<close>

theorem prompt_seed_alignment:
  assumes "check_seeds (seed_tokens s) = Inr ()" and "ints_of (seed_tokens s) = Inr given"
  shows "fst (prepare tp p (Some s) :: (string list \<times> int list, 'img) comp)
           = Inr (parse_prompts p,
                  (if length (parse_prompts p) \<le> length given
                   then take (length (parse_prompts p)) given
                   else given @ random_seeds tp (length (parse_prompts p) - length given)))
       \<and> length given = length (seed_tokens s)
       \<and> length (parse_prompts p) = Suc (count_list p CHR ''|'')
       \<and> length (snd (projr (fst (prepare tp p (Some s)
             :: (string list \<times> int list, 'img) comp)))) = length (parse_prompts p)"
proof -
  have "length (parse_prompts p) = Suc (count_list p CHR ''|'')"
    by (simp add: parse_prompts_def length_split_on)
  moreover have "length given = length (seed_tokens s)"
    by (rule ints_of_length [OF assms(2)])
  moreover have "fst (prepare tp p (Some s) :: (string list \<times> int list, 'img) comp)
           = Inr (parse_prompts p,
                  (if length (parse_prompts p) \<le> length given
                   then take (length (parse_prompts p)) given
                   else given @ random_seeds tp (length (parse_prompts p) - length given)))"
    by (simp add: prepare_given [OF assms] random_seeds_def)
  moreover have "length (snd (projr (fst (prepare tp p (Some s)
             :: (string list \<times> int list, 'img) comp)))) = length (parse_prompts p)"
    by (simp add: prepare_given [OF assms] random_seeds_def)
  ultimately show ?thesis by blast
qed

lemma tokens_42_7: "seed_tokens ''42| 7'' = [''42'', ''7'']"
  by code_simp

lemma tokens_1_2_3: "seed_tokens ''1|2|3'' = [''1'', ''2'', ''3'']"
  by code_simp

lemma prompts_cat_dog_horse:
  "parse_prompts ''a cat | a dog | a horse'' = [''a cat'', ''a dog'', ''a horse'']"
  by code_simp

lemma prompts_a_b: "parse_prompts ''a|b'' = [''a'', ''b'']"
  by code_simp

theorem prompt_seed_alignment_witness:
  "fst (prepare (\<lambda>i. of_nat i) ''a cat | a dog | a horse'' (Some ''42| 7'')
         :: (string list \<times> int list, unit) comp)
     = Inr ([''a cat'', ''a dog'', ''a horse''], [42, 7, 1])
   \<and> fst (prepare (\<lambda>i. of_nat i) ''a|b'' (Some ''1|2|3'')
         :: (string list \<times> int list, unit) comp)
     = Inr ([''a'', ''b''], [1, 2])"
proof -
  have c1: "check_seeds (seed_tokens ''42| 7'') = Inr ()" by code_simp
  have i1: "ints_of (seed_tokens ''42| 7'') = Inr [42, 7]" by code_simp
  have c2: "check_seeds (seed_tokens ''1|2|3'') = Inr ()" by code_simp
  have i2: "ints_of (seed_tokens ''1|2|3'') = Inr [1, 2, 3]" by code_simp
  have r: "random_seeds (\<lambda>i. of_nat i) (Suc 0) = [1]" by code_simp
  show ?thesis
    using prompt_seed_alignment [where 'img = unit, OF c1 i1, of "\<lambda>i. of_nat i" "''a cat | a dog | a horse''"]
      prompt_seed_alignment [where 'img = unit, OF c2 i2, of "\<lambda>i. of_nat i" "''a|b''"]
    by (simp add: prompts_cat_dog_horse prompts_a_b tokens_42_7 tokens_1_2_3 r)
qed









section \<open>The loops\<close>

lemma slerp_sized:
  assumes "sized n v0" "sized n v1"
  shows "\<exists>v. slerp t v0 v1 = Inr v \<and> sized n v"
proof -
  obtain d0 a0 where v0: "v0 = Tensor d0 a0" "length a0 = n"
    using assms(1) by (cases v0) (simp_all add: sized_def)
  obtain d1 a1 where v1: "v1 = Tensor d1 a1" "length a1 = n"
    using assms(2) by (cases v1) (simp_all add: sized_def)
  have "length (interpolate t a0 a1 DOT_THRESHOLD) = n"
    using v0 v1 by (simp add: interpolate_def lerp_def spherical_def Let_def)
  then show ?thesis
    using v0 v1 by (simp add: slerp_def slerp_with_def sized_def)
qed

lemma frame_step_run:
  assumes "sized m embeds_a" "sized m embeds_b" "sized l latents_a" "sized l latents_b"
    and "\<forall>latents embeds. \<not> isl (pipeline ext sch nis gs latents embeds)"
  shows "\<exists>lat emb im.
     frame_step ext sch nis gs frames_total embeds_a embeds_b latents_a latents_b (i, t) frame_index
       = (Inr (frame_index + 1),
          (if i = 0 \<or> (frame_index + 1) mod 20 = 0
           then [PrintCount (int frame_index + 1) frames_total] else [])
          @ [Generate lat emb, Save (frame_path frame_index) im])"
proof -
  obtain emb where emb: "slerp t embeds_a embeds_b = Inr emb"
    using slerp_sized [OF assms(1,2)] by blast
  obtain lat where lat: "slerp t latents_a latents_b = Inr lat"
    using slerp_sized [OF assms(3,4)] by blast
  obtain im where im: "pipeline ext sch nis gs lat emb = Inr im"
    using assms(5) by (metis sum.collapse(2))
  show ?thesis
    by (simp add: frame_step_def use_lerp_for_text_def emb lat generate_def im comp_defs)
qed


lemma inner_loop_run:
  assumes "sized m embeds_a" "sized m embeds_b" "sized l latents_a" "sized l latents_b"
    and "\<forall>latents embeds. \<not> isl (pipeline ext sch nis gs latents embeds)"
  shows "fst (for_each (frame_step ext sch nis gs frames_total embeds_a embeds_b latents_a latents_b)
                (enumerate k ts) fi) = Inr (fi + length ts)
    \<and> saved_files (snd (for_each (frame_step ext sch nis gs frames_total embeds_a embeds_b latents_a latents_b)
                (enumerate k ts) fi)) = map frame_path [fi ..< fi + length ts]
    \<and> progress_counts (snd (for_each (frame_step ext sch nis gs frames_total embeds_a embeds_b latents_a latents_b)
                (enumerate k ts) fi))
        = map (\<lambda>f. int f + 1)
            (filter (\<lambda>f. k + (f - fi) = 0 \<or> (f + 1) mod 20 = 0) [fi ..< fi + length ts])"
proof (induction ts arbitrary: k fi)
  case Nil
  show ?case by (simp add: comp_defs)
next
  case (Cons t ts)
  let ?body = "frame_step ext sch nis gs frames_total embeds_a embeds_b latents_a latents_b"
  obtain lat emb im where step:
    "?body (k, t) fi
       = (Inr (fi + 1),
          (if k = 0 \<or> (fi + 1) mod 20 = 0 then [PrintCount (int fi + 1) frames_total] else [])
          @ [Generate lat emb, Save (frame_path fi) im])"
    using frame_step_run [OF assms] by blast
  let ?rest = "for_each ?body (enumerate (Suc k) ts) (Suc fi)"
  let ?P = "\<lambda>k fi f. k + (f - fi) = 0 \<or> (f + 1) mod 20 = 0"
  have range: "[fi ..< fi + length (t # ts)] = fi # [Suc fi ..< Suc fi + length ts]"
    by (simp add: upt_rec)
  have tail: "filter (?P k fi) [Suc fi ..< Suc fi + length ts]
            = filter (?P (Suc k) (Suc fi)) [Suc fi ..< Suc fi + length ts]"
    by (rule filter_cong) auto
  have run: "for_each ?body (enumerate k (t # ts)) fi
      = (fst ?rest,
         ((if k = 0 \<or> (fi + 1) mod 20 = 0 then [PrintCount (int fi + 1) frames_total] else [])
          @ [Generate lat emb, Save (frame_path fi) im]) @ snd ?rest)"
    by (simp add: step split: prod.splits)
  note ih = Cons.IH [of "Suc k" "Suc fi"]
  have c1: "fst (for_each ?body (enumerate k (t # ts)) fi) = Inr (fi + length (t # ts))"
  proof -
    have "fst (for_each ?body (enumerate k (t # ts)) fi) = fst ?rest"
      by (simp only: run fst_conv)
    also have "\<dots> = Inr (Suc fi + length ts)"
      using ih by blast
    finally show ?thesis by simp
  qed
  have c2: "saved_files (snd (for_each ?body (enumerate k (t # ts)) fi))
      = map frame_path [fi ..< fi + length (t # ts)]"
  proof -
    have "saved_files (snd (for_each ?body (enumerate k (t # ts)) fi))
        = frame_path fi # saved_files (snd ?rest)"
      by (simp only: run snd_conv) simp
    also have "saved_files (snd ?rest) = map frame_path [Suc fi ..< Suc fi + length ts]"
      using ih by blast
    finally show ?thesis by (simp only: range list.map)
  qed
  have c3: "progress_counts (snd (for_each ?body (enumerate k (t # ts)) fi))
      = map (\<lambda>f. int f + 1) (filter (?P k fi) [fi ..< fi + length (t # ts)])"
  proof -
    have "progress_counts (snd (for_each ?body (enumerate k (t # ts)) fi))
        = (if k = 0 \<or> (fi + 1) mod 20 = 0 then [int fi + 1] else []) @ progress_counts (snd ?rest)"
      by (simp only: run snd_conv) simp
    also have "progress_counts (snd ?rest)
        = map (\<lambda>f. int f + 1) (filter (?P (Suc k) (Suc fi)) [Suc fi ..< Suc fi + length ts])"
      using ih by blast
    finally show ?thesis
      unfolding range tail [symmetric] by simp
  qed
  show ?case using c1 c2 c3 by blast
qed


lemma embed_run:
  assumes "embed_text ext prompt = Inr (d, a)"
  shows "embed_prompt ext prompt = (Inr (Tensor d a), [EmbedText prompt])"
  using assms by (simp add: embed_prompt_def comp_defs)

lemma noise_run:
  assumes "randn ext seed = Inr (d, a)"
  shows "noise_latent ext seed = (Inr (Tensor d a), [Randn seed])"
  using assms by (simp add: noise_latent_def comp_defs)

lemma pair_step_run:
  assumes E: "\<forall>prompt. \<exists>d a. embed_text ext prompt = Inr (d, a) \<and> length a = m"
    and R: "\<forall>seed. \<exists>d a. randn ext seed = Inr (d, a) \<and> length a = l"
    and G: "\<forall>latents embeds. \<not> isl (pipeline ext sch nis gs latents embeds)"
    and A: "sized m embeds_a" "sized l latents_a"
    and K: "0 \<le> num_steps"
  shows "\<exists>embeds_b latents_b tr.
      pair_step ext sch nis gs num_steps frames_total (prompt, seed) (embeds_a, latents_a, fi)
        = (Inr (embeds_b, latents_b, fi + nat num_steps), tr)
      \<and> sized m embeds_b \<and> sized l latents_b
      \<and> saved_files tr = map frame_path [fi ..< fi + nat num_steps]
      \<and> progress_counts tr
          = map (\<lambda>f. int f + 1)
              (filter (\<lambda>f. f = fi \<or> (f + 1) mod 20 = 0) [fi ..< fi + nat num_steps])"
proof -
  obtain d a where e: "embed_text ext prompt = Inr (d, a)" "length a = m"
    using E by blast
  obtain d' a' where r: "randn ext seed = Inr (d', a')" "length a' = l"
    using R by blast
  obtain ts where ts: "linspace 0 1 num_steps = Inr ts" "length ts = nat num_steps"
    using linspace_length [OF K] by blast
  let ?eb = "Tensor d a" and ?lb = "Tensor d' a'"
  let ?loop = "for_each (frame_step ext sch nis gs frames_total embeds_a ?eb latents_a ?lb)
                 (enumerate 0 ts) fi"
  have sz: "sized m ?eb" "sized l ?lb"
    using e r by (simp_all add: sized_def)
  note inner = inner_loop_run [OF A(1) sz(1) A(2) sz(2) G, of frames_total 0 ts fi]
  have f: "fst ?loop = Inr (fi + nat num_steps)"
    using inner ts(2) by simp
  have run: "pair_step ext sch nis gs num_steps frames_total (prompt, seed) (embeds_a, latents_a, fi)
      = (Inr (?eb, ?lb, fi + nat num_steps), [EmbedText prompt, Randn seed] @ snd ?loop)"
    using f by (cases ?loop) (simp add: pair_step_def embed_run [OF e(1)] noise_run [OF r(1)] ts(1) comp_defs)
  have pred: "filter (\<lambda>f. 0 + (f - fi) = 0 \<or> (f + 1) mod 20 = 0) [fi ..< fi + nat num_steps]
            = filter (\<lambda>f. f = fi \<or> (f + 1) mod 20 = 0) [fi ..< fi + nat num_steps]"
    by (rule filter_cong) auto
  show ?thesis
    using inner sz unfolding run ts(2) pred by simp
qed


lemma upt_split: "[a ..< a + (k + n)] = [a ..< a + k] @ [a + k ..< a + k + n]"
  by (metis add.assoc le_add1 upt_add_eq_append)

lemma outer_loop_run:
  assumes E: "\<forall>prompt. \<exists>d a. embed_text ext prompt = Inr (d, a) \<and> length a = m"
    and R: "\<forall>seed. \<exists>d a. randn ext seed = Inr (d, a) \<and> length a = l"
    and G: "\<forall>latents embeds. \<not> isl (pipeline ext sch nis gs latents embeds)"
    and K: "0 \<le> num_steps"
  shows "sized m embeds_a \<Longrightarrow> sized l latents_a \<Longrightarrow>
    \<exists>st tr.
      for_each (pair_step ext sch nis gs num_steps frames_total) pairs (embeds_a, latents_a, fi)
        = (Inr st, tr)
      \<and> saved_files tr = map frame_path [fi ..< fi + length pairs * nat num_steps]
      \<and> progress_counts tr
          = map (\<lambda>f. int f + 1)
              (filter (\<lambda>f. (f - fi) mod nat num_steps = 0 \<or> (f + 1) mod 20 = 0)
                 [fi ..< fi + length pairs * nat num_steps])"
proof (induction pairs arbitrary: embeds_a latents_a fi)
  case Nil
  show ?case by (simp add: comp_defs)
next
  case (Cons ps pairs)
  let ?K = "nat num_steps"
  let ?step = "pair_step ext sch nis gs num_steps frames_total"
  let ?P = "\<lambda>fi f. (f - fi) mod ?K = 0 \<or> (f + 1) mod 20 = 0"
  obtain prompt seed where ps: "ps = (prompt, seed)" by (cases ps)
  obtain embeds_b latents_b tr1 where
    step: "?step (prompt, seed) (embeds_a, latents_a, fi) = (Inr (embeds_b, latents_b, fi + ?K), tr1)"
    and sz: "sized m embeds_b" "sized l latents_b"
    and s1: "saved_files tr1 = map frame_path [fi ..< fi + ?K]"
    and p1: "progress_counts tr1
          = map (\<lambda>f. int f + 1) (filter (\<lambda>f. f = fi \<or> (f + 1) mod 20 = 0) [fi ..< fi + ?K])"
    using pair_step_run [OF E R G Cons.prems K] by blast
  obtain st tr2 where
    rest: "for_each ?step pairs (embeds_b, latents_b, fi + ?K) = (Inr st, tr2)"
    and s2: "saved_files tr2 = map frame_path [fi + ?K ..< fi + ?K + length pairs * ?K]"
    and p2: "progress_counts tr2
          = map (\<lambda>f. int f + 1) (filter (?P (fi + ?K)) [fi + ?K ..< fi + ?K + length pairs * ?K])"
    using Cons.IH [OF sz] by blast
  have run: "for_each ?step (ps # pairs) (embeds_a, latents_a, fi) = (Inr st, tr1 @ tr2)"
    by (simp add: ps step rest)
  have range: "[fi ..< fi + length (ps # pairs) * ?K]
      = [fi ..< fi + ?K] @ [fi + ?K ..< fi + ?K + length pairs * ?K]"
    using upt_split [of fi ?K "length pairs * ?K"] by simp
  have f1: "filter (?P fi) [fi ..< fi + ?K]
          = filter (\<lambda>f. f = fi \<or> (f + 1) mod 20 = 0) [fi ..< fi + ?K]"
  proof (rule filter_cong)
    fix f assume "f \<in> set [fi ..< fi + ?K]"
    then have "fi \<le> f" "f - fi < ?K" by auto
    then have "(f - fi) mod ?K = 0 \<longleftrightarrow> f = fi" by simp
    then show "?P fi f = (f = fi \<or> (f + 1) mod 20 = 0)" by simp
  qed simp
  have f2: "filter (?P fi) [fi + ?K ..< fi + ?K + length pairs * ?K]
          = filter (?P (fi + ?K)) [fi + ?K ..< fi + ?K + length pairs * ?K]"
  proof (rule filter_cong)
    fix f assume "f \<in> set [fi + ?K ..< fi + ?K + length pairs * ?K]"
    then have "fi + ?K \<le> f" by simp
    then have "f - fi = (f - (fi + ?K)) + ?K" by simp
    then have "(f - fi) mod ?K = (f - (fi + ?K)) mod ?K" by (metis mod_add_self2)
    then show "?P fi f = ?P (fi + ?K) f" by simp
  qed simp
  have "saved_files (tr1 @ tr2) = map frame_path [fi ..< fi + length (ps # pairs) * ?K]"
    unfolding range by (simp add: s1 s2)
  moreover have "progress_counts (tr1 @ tr2)
      = map (\<lambda>f. int f + 1) (filter (?P fi) [fi ..< fi + length (ps # pairs) * ?K])"
  proof -
    have "progress_counts (tr1 @ tr2) = progress_counts tr1 @ progress_counts tr2"
      by simp
    also have "\<dots> = map (\<lambda>f. int f + 1) (filter (?P fi) [fi ..< fi + ?K])
        @ map (\<lambda>f. int f + 1) (filter (?P fi) [fi + ?K ..< fi + ?K + length pairs * ?K])"
      by (simp only: p1 p2 f1 f2)
    also have "\<dots> = map (\<lambda>f. int f + 1) (filter (?P fi) [fi ..< fi + length (ps # pairs) * ?K])"
      by (simp only: range filter_append map_append)
    finally show ?thesis .
  qed
  ultimately show ?case using run by blast
qed


lemma predict_unfold:
  assumes "prepare (entropy ext) prompts seeds = (Inr (p0 # ps, s0 # ss), tr0)"
    and "embed_text ext p0 = Inr (d, a)" and "randn ext s0 = Inr (d', a')"
    and "for_each (pair_step ext sch nis gs num_steps (int (length ss) * num_steps))
           (zip ps ss) (Tensor d a, Tensor d' a', 0) = (Inr st, trl)"
  shows "predict ext prompts seeds sch nis gs num_steps fps
     = ((case fst (run_cmd ext (ffmpeg_command fps)) of Inl e \<Rightarrow> Inl e | Inr u \<Rightarrow> Inr video_path),
        tr0 @ PrintSeedsHeader # map (\<lambda>(p, s). PrintSeed p s) (zip (p0 # ps) (s0 # ss))
          @ [SetProgressBar disable_tqdm, SetScheduler sch]
          @ (if outdir_exists ext then [Rmtree outdir] else [])
          @ [Makedirs outdir, EmbedText p0, Randn s0]
          @ trl @ snd (run_cmd ext (ffmpeg_command fps)))"
proof (cases "run_cmd ext (ffmpeg_command fps)")
  case (Pair r tr)
  show ?thesis
    by (cases r)
      (simp_all add: predict_def assms print_listing_def comp_defs
        embed_run [OF assms(2)] noise_run [OF assms(3)] Pair)
qed


lemma run_cmd_quiet:
  "saved_files (snd (run_cmd ext c)) = []"
  "progress_counts (snd (run_cmd ext c)) = []"
  "generations (snd (run_cmd ext c)) = []"
  by (simp_all add: run_cmd_def comp_defs global_name_def split: call_result.splits sum.splits)

lemma predict_observed:
  fixes ext :: "'img externals"
  assumes ok: "collaborators_ok ext sch nis gs" and seeds: "seeds_accepted seeds"
    and K: "0 \<le> num_steps"
  shows "saved_files (snd (predict ext prompts seeds sch nis gs num_steps fps))
           = map frame_path [0 ..< (length (parse_prompts prompts) - 1) * nat num_steps]"
    and "progress_counts (snd (predict ext prompts seeds sch nis gs num_steps fps))
           = map (\<lambda>f. int f + 1)
               (filter (\<lambda>f. f mod nat num_steps = 0 \<or> (f + 1) mod 20 = 0)
                  [0 ..< (length (parse_prompts prompts) - 1) * nat num_steps])"
proof -
  obtain m l where
    E: "\<forall>prompt. \<exists>d a. embed_text ext prompt = Inr (d, a) \<and> length a = m"
    and R: "\<forall>seed. \<exists>d a. randn ext seed = Inr (d, a) \<and> length a = l"
    and G: "\<forall>latents embeds. \<not> isl (pipeline ext sch nis gs latents embeds)"
    using ok unfolding collaborators_ok_def by blast
  obtain ss and tr0 :: "'img event list" where
    prep: "prepare (entropy ext) prompts seeds = (Inr (parse_prompts prompts, ss), tr0)"
    and len: "length ss = length (parse_prompts prompts)"
    and tr0: "set tr0 \<subseteq> {PrintSettingSeeds}"
    using prepare_accepted [OF seeds] by blast
  obtain p0 ps where ps: "parse_prompts prompts = p0 # ps"
    using parse_prompts_nonempty by (cases "parse_prompts prompts") auto
  obtain s0 ss' where ss: "ss = s0 # ss'"
    using len ps by (cases ss) auto
  have n: "length (zip ps ss') = length (parse_prompts prompts) - 1"
    using len ps ss by simp
  obtain d a where e: "embed_text ext p0 = Inr (d, a)" "length a = m"
    using E by blast
  obtain d' a' where r: "randn ext s0 = Inr (d', a')" "length a' = l"
    using R by blast
  have sz: "sized m (Tensor d a)" "sized l (Tensor d' a')"
    using e r by (simp_all add: sized_def)
  obtain st trl where
    loop: "for_each (pair_step ext sch nis gs num_steps (int (length ss') * num_steps))
             (zip ps ss') (Tensor d a, Tensor d' a', 0) = (Inr st, trl)"
    and saved: "saved_files trl = map frame_path [0 ..< 0 + length (zip ps ss') * nat num_steps]"
    and counts: "progress_counts trl
          = map (\<lambda>f. int f + 1)
              (filter (\<lambda>f. (f - 0) mod nat num_steps = 0 \<or> (f + 1) mod 20 = 0)
                 [0 ..< 0 + length (zip ps ss') * nat num_steps])"
    using outer_loop_run [OF E R G K sz, of "int (length ss') * num_steps" "zip ps ss'" 0]
    by blast
  note run = predict_unfold [OF prep [unfolded ps ss] e(1) r(1) loop]
  show "saved_files (snd (predict ext prompts seeds sch nis gs num_steps fps))
           = map frame_path [0 ..< (length (parse_prompts prompts) - 1) * nat num_steps]"
    unfolding run using saved n
    by (simp add: prints_quiet [OF tr0] listing_quiet run_cmd_quiet del: upt_Suc)
  show "progress_counts (snd (predict ext prompts seeds sch nis gs num_steps fps))
           = map (\<lambda>f. int f + 1)
               (filter (\<lambda>f. f mod nat num_steps = 0 \<or> (f + 1) mod 20 = 0)
                  [0 ..< (length (parse_prompts prompts) - 1) * nat num_steps])"
    unfolding run using counts n
    by (simp add: prints_quiet [OF tr0] listing_quiet run_cmd_quiet del: upt_Suc)
qed

section \<open>Frame file names\<close>

lemma digit_value_digit_char: "d < 10 \<Longrightarrow> digit_value (digit_char d) = int d"
  by (simp add: digit_value_def digit_char_def code_point_def)

lemma decimal_str_nat:
  "foldl (\<lambda>acc c. 10 * acc + digit_value c) 0 (str_nat n) = int n"
proof (induction n rule: str_nat.induct)
  case (1 n)
  show ?case
  proof (cases "n < 10")
    case True
    then show ?thesis
      by (subst str_nat.simps) (simp add: digit_value_digit_char)
  next
    case False
    then have "foldl (\<lambda>acc c. 10 * acc + digit_value c) 0 (str_nat (n div 10)) = int (n div 10)"
      using "1.IH" by simp
    then have "foldl (\<lambda>acc c. 10 * acc + digit_value c) 0 (str_nat n)
        = 10 * int (n div 10) + int (n mod 10)"
      using False by (subst str_nat.simps) (simp add: digit_value_digit_char)
    then show ?thesis by (simp add: zdiv_int zmod_int)
  qed
qed

lemma decimal_leading_zeros:
  "foldl (\<lambda>acc c. 10 * acc + digit_value c) 0 (replicate k CHR ''0'') = 0"
  by (induction k) (simp_all add: digit_value_def code_point_def)

lemma decimal_fmt_06d:
  "foldl (\<lambda>acc c. 10 * acc + digit_value c) 0 (fmt_06d n) = int n"
  by (simp add: fmt_06d_def Let_def decimal_leading_zeros decimal_str_nat)

lemma frame_path_inj: "frame_path a = frame_path b \<Longrightarrow> a = b"
proof -
  assume "frame_path a = frame_path b"
  then have same: "fmt_06d a = fmt_06d b"
    unfolding frame_path_def path_join_def
    by (simp only: same_append_eq append_same_eq)
  have "int a = foldl (\<lambda>acc c. 10 * acc + digit_value c) 0 (fmt_06d a)"
    by (simp only: decimal_fmt_06d)
  also have "\<dots> = foldl (\<lambda>acc c. 10 * acc + digit_value c) 0 (fmt_06d b)"
    by (simp only: same)
  also have "\<dots> = int b"
    by (rule decimal_fmt_06d)
  finally show "a = b" by simp
qed

lemma distinct_frame_paths: "distinct (map frame_path [0 ..< n])"
  by (simp add: distinct_map inj_on_def frame_path_inj)

section \<open>Frames\<close>

lemma stub_ok: "collaborators_ok (stub r) sch nis gs"
  unfolding collaborators_ok_def stub_def by simp

text \<open>
  C2. Frame count and contiguity. When the collaborators work, the seed string (if any)
  is accepted and the step count \<open>K\<close> is not negative, a run over \<open>N\<close> prompts saves
  exactly the files of the frame indices 0, 1, ..., \<open>(N - 1) * K - 1\<close>, in this order;
  they are \<open>(N - 1) * K\<close> different files.
\<close>

theorem frame_count_and_contiguity:
  assumes "collaborators_ok ext sch nis gs" and "seeds_accepted seeds" and "0 \<le> num_steps"
  shows "saved_files (snd (predict ext prompts seeds sch nis gs num_steps fps))
           = map frame_path [0 ..< (length (parse_prompts prompts) - 1) * nat num_steps]
       \<and> length (saved_files (snd (predict ext prompts seeds sch nis gs num_steps fps)))
           = (length (parse_prompts prompts) - 1) * nat num_steps
       \<and> distinct (saved_files (snd (predict ext prompts seeds sch nis gs num_steps fps)))"
  by (simp add: predict_observed(1) [OF assms] distinct_frame_paths del: upt_Suc)

lemma prompts_a_b_c: "parse_prompts ''a|b|c'' = [''a'', ''b'', ''c'']"
  by code_simp

lemma frame_paths_6:
  "map frame_path [0 ..< 6]
     = [''cog_out/frame000000.jpg'', ''cog_out/frame000001.jpg'', ''cog_out/frame000002.jpg'',
        ''cog_out/frame000003.jpg'', ''cog_out/frame000004.jpg'', ''cog_out/frame000005.jpg'']"
  by code_simp

theorem frame_count_and_contiguity_witness:
  "saved_files (snd (predict (stub (Returned 0)) ''a|b|c'' None klms 50 (15 / 2) 3 15))
     = [''cog_out/frame000000.jpg'', ''cog_out/frame000001.jpg'', ''cog_out/frame000002.jpg'',
        ''cog_out/frame000003.jpg'', ''cog_out/frame000004.jpg'', ''cog_out/frame000005.jpg'']
   \<and> length (saved_files (snd (predict (stub (Returned 0)) ''a|b|c'' None klms 50 (15 / 2) 3 15)))
     = 6
   \<and> distinct (saved_files (snd (predict (stub (Returned 0)) ''a|b|c'' None klms 50 (15 / 2) 3 15)))"
proof -
  have s: "seeds_accepted None" by (simp add: seeds_accepted_def)
  have k: "(0 :: int) \<le> 3" by simp
  have n: "(length (parse_prompts ''a|b|c'') - 1) * nat 3 = 6"
    by (simp add: prompts_a_b_c)
  show ?thesis
    using frame_count_and_contiguity [OF stub_ok [of "Returned 0" klms 50 "15 / 2"] s k,
        where prompts = "''a|b|c''" and fps = 15]
    unfolding n frame_paths_6 by simp
qed

text \<open>
  A negative step count is refused by \<^verbatim>\<open>np.linspace\<close> at the first pair of prompts:
  the run ends with ValueError and has saved nothing.
\<close>

lemma negative_steps_raise:
  fixes ext :: "'img externals"
  assumes ok: "collaborators_ok ext sch nis gs" and seeds: "seeds_accepted seeds"
    and K: "num_steps < 0" and N: "2 \<le> length (parse_prompts prompts)"
  shows "fst (predict ext prompts seeds sch nis gs num_steps fps) = Inl ValueError"
    and "saved_files (snd (predict ext prompts seeds sch nis gs num_steps fps)) = []"
proof -
  obtain ss and tr0 :: "'img event list" where
    prep: "prepare (entropy ext) prompts seeds = (Inr (parse_prompts prompts, ss), tr0)"
    and len: "length ss = length (parse_prompts prompts)"
    and tr0: "set tr0 \<subseteq> {PrintSettingSeeds}"
    using prepare_accepted [OF seeds] by blast
  obtain p0 p1 ps where ps: "parse_prompts prompts = p0 # p1 # ps"
    using N by (cases "parse_prompts prompts" rule: list.exhaust [case_product list.exhaust])
      (auto simp: neq_Nil_conv Suc_le_eq)
  obtain s0 s1 ss' where ss: "ss = s0 # s1 # ss'"
    using len ps by (cases ss; cases "tl ss") auto
  have E: "\<forall>prompt. \<exists>d a. embed_text ext prompt = Inr (d, a)"
    and R: "\<forall>seed. \<exists>d a. randn ext seed = Inr (d, a)"
    using ok unfolding collaborators_ok_def by blast+
  obtain d0 a0 where e0: "embed_text ext p0 = Inr (d0, a0)" using E by blast
  obtain d1 a1 where e1: "embed_text ext p1 = Inr (d1, a1)" using E by blast
  obtain d0' a0' where r0: "randn ext s0 = Inr (d0', a0')" using R by blast
  obtain d1' a1' where r1: "randn ext s1 = Inr (d1', a1')" using R by blast
  have lin: "linspace 0 1 num_steps = Inl ValueError"
    using K by (simp add: linspace_def)
  have run: "predict ext prompts seeds sch nis gs num_steps fps
      = (Inl ValueError,
         tr0 @ PrintSeedsHeader # map (\<lambda>(p, s). PrintSeed p s) (zip (p0 # p1 # ps) (s0 # s1 # ss'))
           @ [SetProgressBar disable_tqdm, SetScheduler sch]
           @ (if outdir_exists ext then [Rmtree outdir] else [])
           @ [Makedirs outdir, EmbedText p0, Randn s0, EmbedText p1, Randn s1])"
    by (simp add: predict_def prep [unfolded ps ss] print_listing_def comp_defs
        embed_run [OF e0] noise_run [OF r0] embed_run [OF e1] noise_run [OF r1]
        pair_step_def lin)
  show "fst (predict ext prompts seeds sch nis gs num_steps fps) = Inl ValueError"
    by (simp add: run)
  show "saved_files (snd (predict ext prompts seeds sch nis gs num_steps fps)) = []"
    by (simp add: run prints_quiet [OF tr0] listing_quiet)
qed

section \<open>Progress lines\<close>

lemma erase_progress_append [simp]:
  "erase_progress (tr @ tr') = erase_progress tr @ erase_progress tr'"
  by (simp add: erase_progress_def)

lemma agree_refl [simp]: "agree c c"
  by (simp add: agree_def)

lemma agree_seq:
  assumes "agree m1 m2" and "\<And>x. agree (f1 x) (f2 x)"
  shows "agree (seq m1 f1) (seq m2 f2)"
proof -
  obtain r1 tr1 where m1: "m1 = (r1, tr1)" by (cases m1)
  obtain r2 tr2 where m2: "m2 = (r2, tr2)" by (cases m2)
  have r: "r2 = r1" and tr: "erase_progress tr1 = erase_progress tr2"
    using assms(1) by (simp_all add: m1 m2 agree_def)
  show ?thesis
  proof (cases r1)
    case (Inl e)
    then show ?thesis
      by (simp add: m1 m2 r tr agree_def)
  next
    case (Inr x)
    have "fst (f1 x) = fst (f2 x)" and "erase_progress (snd (f1 x)) = erase_progress (snd (f2 x))"
      using assms(2) [of x] by (simp_all add: agree_def)
    then show ?thesis
      by (simp add: m1 m2 r tr Inr agree_def)
  qed
qed

lemma agree_for_each:
  assumes "\<And>x s. agree (b1 x s) (b2 x s)"
  shows "agree (for_each b1 xs s) (for_each b2 xs s)"
proof (induction xs arbitrary: s)
  case Nil
  show ?case by simp
next
  case (Cons x xs)
  show ?case
    by (simp del: seq_Inr seq_Inl) (rule agree_seq [OF assms Cons.IH])
qed

lemma agree_progress_line:
  "agree (if b then emit (PrintCount k n) else ret ())
         (if b' then emit (PrintCount k n) else ret ())"
  by (simp add: agree_def comp_defs erase_progress_def)

lemma frame_step_with_agree:
  "agree (frame_step_with pr ext sch nis gs frames_total ea eb la lb it fi)
         (frame_step_with pr' ext sch nis gs frames_total ea eb la lb it fi)"
proof -
  obtain i t where it: "it = (i, t)" by (cases it)
  show ?thesis
    unfolding frame_step_with_def Let_def it prod.case
    by (intro agree_seq agree_progress_line agree_refl)
qed

lemma pair_step_with_agree:
  "agree (pair_step_with pr ext sch nis gs num_steps frames_total ps st)
         (pair_step_with pr' ext sch nis gs num_steps frames_total ps st)"
proof -
  obtain prompt seed where ps: "ps = (prompt, seed)" by (cases ps)
  obtain ea la fi where st: "st = (ea, la, fi)" by (cases st)
  show ?thesis
    unfolding pair_step_with_def ps st prod.case
    by (intro agree_seq agree_refl agree_for_each frame_step_with_agree)
qed

lemma predict_with_agree:
  "agree (predict_with pr ext prompts seeds sch nis gs num_steps fps)
         (predict_with pr' ext prompts seeds sch nis gs num_steps fps)"
  unfolding predict_with_def
  by (auto simp del: seq_Inr seq_Inl split: prod.splits list.splits
      intro!: agree_seq agree_for_each pair_step_with_agree)

lemma frame_step_is_with:
  "frame_step ext sch nis gs frames_total ea eb la lb
     = frame_step_with (\<lambda>i frame_index. i = 0 \<or> (frame_index + 1) mod 20 = 0)
         ext sch nis gs frames_total ea eb la lb"
  by (rule ext)+ (simp add: frame_step_def frame_step_with_def)

lemma pair_step_is_with:
  "pair_step ext sch nis gs num_steps frames_total
     = pair_step_with (\<lambda>i frame_index. i = 0 \<or> (frame_index + 1) mod 20 = 0)
         ext sch nis gs num_steps frames_total"
  by (rule ext)+ (simp add: pair_step_def pair_step_with_def frame_step_is_with)

lemma predict_is_with:
  "predict ext prompts seeds sch nis gs num_steps fps
     = predict_with (\<lambda>i frame_index. i = 0 \<or> (frame_index + 1) mod 20 = 0)
         ext prompts seeds sch nis gs num_steps fps"
  unfolding predict_def predict_with_def pair_step_is_with by (rule refl)

text \<open>
  C8, as the code has it. The count is printed at the first step of every pair of
  prompts (the frame indices that are multiples of the step count) and at every frame
  whose number is a multiple of 20, and at no other frame. Whatever the steps at which
  progress is printed, the run ends the same way and does the same things but for these
  lines: same collaborator calls, same frames, same encoder command.
\<close>

theorem progress_reporting:
  assumes "collaborators_ok ext sch nis gs" and "seeds_accepted seeds" and "0 \<le> num_steps"
  shows "progress_counts (snd (predict ext prompts seeds sch nis gs num_steps fps))
           = map (\<lambda>f. int f + 1)
               (filter (\<lambda>f. f mod nat num_steps = 0 \<or> (f + 1) mod 20 = 0)
                  [0 ..< (length (parse_prompts prompts) - 1) * nat num_steps])
       \<and> agree (predict_with pr ext prompts seeds sch nis gs num_steps fps)
               (predict ext prompts seeds sch nis gs num_steps fps)"
  using predict_observed(2) [OF assms] predict_with_agree [of pr]
  by (simp add: predict_is_with)

lemma frames_6_filtered:
  "map (\<lambda>f. int f + 1) (filter (\<lambda>f. f mod nat 3 = 0 \<or> (f + 1) mod 20 = 0) [0 ..< 6]) = [1, 4]"
  by code_simp

theorem progress_reporting_witness:
  "progress_counts (snd (predict (stub (Returned 0)) ''a|b|c'' None klms 50 (15 / 2) 3 15)) = [1, 4]
   \<and> agree (predict_with (\<lambda>i frame_index. False) (stub (Returned 0)) ''a|b|c'' None klms 50 (15 / 2) 3 15)
           (predict (stub (Returned 0)) ''a|b|c'' None klms 50 (15 / 2) 3 15)"
proof -
  have s: "seeds_accepted None" by (simp add: seeds_accepted_def)
  have k: "(0 :: int) \<le> 3" by simp
  have n: "(length (parse_prompts ''a|b|c'') - 1) * nat 3 = 6"
    by (simp add: prompts_a_b_c)
  show ?thesis
    using progress_reporting [OF stub_ok [of "Returned 0" klms 50 "15 / 2"] s k,
        where prompts = "''a|b|c''" and fps = 15 and pr = "\<lambda>i frame_index. False"]
    unfolding n frames_6_filtered by simp
qed

text \<open>
  C8, as the spec has it, fails with three prompts and three steps: of the six frames,
  the first and the fourth are reported, and the fourth is neither the first step of the
  run nor a 20th frame.
\<close>

theorem progress_at_second_pair:
  "progress_counts (snd (predict (stub (Returned 0)) ''a|b|c'' None klms 50 (15 / 2) 3 15))
     \<noteq> filter (\<lambda>k. k = 1 \<or> k mod 20 = 0) [1, 2, 3, 4, 5, 6]"
proof -
  have s: "seeds_accepted None" by (simp add: seeds_accepted_def)
  have k: "(0 :: int) \<le> 3" by simp
  have n: "(length (parse_prompts ''a|b|c'') - 1) * nat 3 = 6"
    by (simp add: prompts_a_b_c)
  have "progress_counts (snd (predict (stub (Returned 0)) ''a|b|c'' None klms 50 (15 / 2) 3 15))
      = [1, 4]"
    using predict_observed(2) [OF stub_ok [of "Returned 0" klms 50 "15 / 2"] s k,
        where prompts = "''a|b|c''" and fps = 15]
    unfolding n frames_6_filtered by simp
  then show ?thesis by simp
qed

section \<open>A single prompt\<close>

text \<open>
  C10. A prompt string without delimiter. When the seed string (if any) is accepted, the
  prompt is embedded, the noise is drawn and the encoder call returns, whatever its exit
  status, the run returns the video path. It has printed the listing, emptied the frame
  directory, embedded the one prompt and drawn the one latent, and then run the encoder:
  the pipeline was not called and no frame was saved.
\<close>

theorem single_prompt_run:
  fixes ext :: "'img externals"
  assumes "CHR ''|'' \<notin> set prompts" and "seeds_accepted seeds"
    and "\<not> isl (embed_text ext (strip prompts))" and "\<forall>seed. \<not> isl (randn ext seed)"
    and "call ext (ffmpeg_command fps) = Returned status"
  shows "\<exists>seed (tr0 :: 'img event list).
           prepare (entropy ext) prompts seeds = (Inr ([strip prompts], [seed]), tr0)
         \<and> predict ext prompts seeds sch nis gs num_steps fps
             = (Inr video_path,
                tr0 @ [PrintSeedsHeader, PrintSeed (strip prompts) seed,
                       SetProgressBar disable_tqdm, SetScheduler sch]
                  @ (if outdir_exists ext then [Rmtree outdir] else [])
                  @ [Makedirs outdir, EmbedText (strip prompts), Randn seed,
                     Call (ffmpeg_command fps)])
         \<and> saved_files (snd (predict ext prompts seeds sch nis gs num_steps fps)) = []
         \<and> generations (snd (predict ext prompts seeds sch nis gs num_steps fps)) = []"
proof -
  have one: "parse_prompts prompts = [strip prompts]"
    using assms(1) by (simp add: parse_prompts_def split_on_no_sep)
  obtain ss and tr0 :: "'img event list" where
    prep: "prepare (entropy ext) prompts seeds = (Inr (parse_prompts prompts, ss), tr0)"
    and len: "length ss = length (parse_prompts prompts)"
    and tr0: "set tr0 \<subseteq> {PrintSettingSeeds}"
    using prepare_accepted [OF assms(2)] by blast
  obtain seed where ss: "ss = [seed]"
    using len one by (cases ss) auto
  obtain d a where e: "embed_text ext (strip prompts) = Inr (d, a)"
    using assms(3) by (cases "embed_text ext (strip prompts)") auto
  have "\<not> isl (randn ext seed)"
    using assms(4) by blast
  then obtain d' a' where r: "randn ext seed = Inr (d', a')"
    by (cases "randn ext seed") auto
  have loop: "for_each (pair_step ext sch nis gs num_steps (int (length ([] :: int list)) * num_steps))
      (zip [] []) (Tensor d a, Tensor d' a', 0) = (Inr (Tensor d a, Tensor d' a', 0), [])"
    by (simp add: comp_defs)
  note run = predict_unfold [OF prep [unfolded one ss] e r loop, of fps]
  have result: "predict ext prompts seeds sch nis gs num_steps fps
      = (Inr video_path,
         tr0 @ [PrintSeedsHeader, PrintSeed (strip prompts) seed,
                SetProgressBar disable_tqdm, SetScheduler sch]
           @ (if outdir_exists ext then [Rmtree outdir] else [])
           @ [Makedirs outdir, EmbedText (strip prompts), Randn seed,
              Call (ffmpeg_command fps)])"
    unfolding run run_cmd_returned [OF assms(5)] by simp
  have "saved_files (snd (predict ext prompts seeds sch nis gs num_steps fps)) = []"
    and "generations (snd (predict ext prompts seeds sch nis gs num_steps fps)) = []"
    unfolding result by (simp_all add: prints_quiet [OF tr0])
  then show ?thesis
    using prep [unfolded one ss] result by blast
qed

lemma prepare_a_cat:
  "(prepare (entropy (stub (Returned 1))) ''a cat'' (Some ''42|7'')
      :: (string list \<times> int list, unit) comp)
     = (Inr ([''a cat''], [42]), [])"
  by code_simp

theorem single_prompt_run_witness:
  "predict (stub (Returned 1)) ''a cat'' (Some ''42|7'') klms 50 (15 / 2) 50 15
     = (Inr ''/tmp/out.mp4'',
        [PrintSeedsHeader, PrintSeed ''a cat'' 42, SetProgressBar False, SetScheduler klms,
         Rmtree ''cog_out'', Makedirs ''cog_out'', EmbedText ''a cat'', Randn 42,
         Call ''ffmpeg -y -r 15 -i cog_out/frame%06d.jpg -vcodec libx264 -crf 25  -pix_fmt yuv420p /tmp/out.mp4''])
   \<and> saved_files (snd (predict (stub (Returned 1)) ''a cat'' (Some ''42|7'') klms 50 (15 / 2) 50 15)) = []
   \<and> generations (snd (predict (stub (Returned 1)) ''a cat'' (Some ''42|7'') klms 50 (15 / 2) 50 15)) = []"
proof -
  have h1: "CHR ''|'' \<notin> set ''a cat''" by simp
  have h2: "seeds_accepted (Some ''42|7'')" by code_simp
  have h3: "\<not> isl (embed_text (stub (Returned 1)) (strip ''a cat''))" by (simp add: stub_def)
  have h4: "\<forall>seed. \<not> isl (randn (stub (Returned 1)) seed)" by (simp add: stub_def)
  have h5: "call (stub (Returned 1)) (ffmpeg_command 15) = Returned 1" by (simp add: stub_def)
  have st: "strip ''a cat'' = ''a cat''" by code_simp
  have cmd: "ffmpeg_command 15
      = ''ffmpeg -y -r 15 -i cog_out/frame%06d.jpg -vcodec libx264 -crf 25  -pix_fmt yuv420p /tmp/out.mp4''"
    by code_simp
  have ex: "outdir_exists (stub (Returned 1))" by (simp add: stub_def)
  show ?thesis
    using single_prompt_run [OF h1 h2 h3 h4 h5, of klms 50 "15 / 2" 50]
    unfolding prepare_a_cat st cmd
    by (auto simp: ex video_path_def outdir_def disable_tqdm_def)
qed

end
